theory Spec2Isabelle
  imports Main
begin

section \<open>Data model\<close>

text \<open>
  The module \<^verbatim>\<open>azure/cli/core/auth/util.py\<close> is a set of stateless helpers over
  Python strings, byte strings and dictionaries.

  A Python \<^verbatim>\<open>str\<close> is a sequence of Unicode code points, and \<^verbatim>\<open>len\<close>, slicing and
  \<^verbatim>\<open>endswith\<close> count code points; it is modelled as the list of its code points.
  A \<^verbatim>\<open>str\<close> may hold lone surrogates (U+D800 to U+DFFF), which have no UTF-8
  encoding; numbers from \<open>0x110000\<close> on are not code points of any \<^verbatim>\<open>str\<close>.
  A \<^verbatim>\<open>bytes\<close> object is the list of its byte values.
\<close>

type_synonym str = "nat list"
type_synonym bytes = "nat list"

text \<open>A string literal of the source, as its code points.\<close>

abbreviation lit :: "string \<Rightarrow> str" where
  "lit s \<equiv> map of_char s"

text \<open>
  The dictionaries handled here come from the token library and from JSON: their keys
  are strings and their values are \<^verbatim>\<open>None\<close>, booleans, integers, strings, lists or
  dictionaries again. A dictionary is an association list read with \<open>map_of\<close>.
\<close>

datatype pyval =
    PNone
  | PBool bool
  | PInt int
  | PStr str
  | PList "pyval list"
  | PDict "(str \<times> pyval) list"

type_synonym pydict = "(str \<times> pyval) list"

text \<open>Python's truth value of an object, as \<^verbatim>\<open>if x\<close>, \<^verbatim>\<open>not x\<close> and \<^verbatim>\<open>x or y\<close> use it.\<close>

fun truthy :: "pyval \<Rightarrow> bool" where
  "truthy PNone = False"
| "truthy (PBool b) = b"
| "truthy (PInt i) = (i \<noteq> 0)"
| "truthy (PStr s) = (s \<noteq> [])"
| "truthy (PList xs) = (xs \<noteq> [])"
| "truthy (PDict kvs) = (kvs \<noteq> [])"

text \<open>
  Modelled from the spec: the class \<^verbatim>\<open>AuthenticationError\<close> of
  \<^verbatim>\<open>azure.cli.core.azclierror\<close> is not among the sources. The module builds it from a
  message and a \<^verbatim>\<open>recommendation\<close>, and the specification describes it as a classified
  error that carries a message and a remediation string; \<open>AuthenticationError\<close> holds
  the two (the message is whatever object \<^verbatim>\<open>error.get('error_description')\<close> gave).
  The other constructors are exceptions of Python that the module lets through.
  \<open>BinasciiError\<close>, \<open>UnicodeEncodeError\<close>, \<open>UnicodeDecodeError\<close> and
  \<open>JSONDecodeError\<close> are subclasses of \<open>ValueError\<close> in Python, which is what the
  \<^verbatim>\<open>except ValueError\<close> clauses of the codec catch.
\<close>

datatype error =
    AuthenticationError pyval str
  | KeyError str
  | IndexError
  | AttributeError
  | TypeError
  | ValueError
  | BinasciiError
  | UnicodeEncodeError
  | UnicodeDecodeError
  | JSONDecodeError

fun is_ValueError :: "error \<Rightarrow> bool" where
  "is_ValueError ValueError = True"
| "is_ValueError BinasciiError = True"
| "is_ValueError UnicodeEncodeError = True"
| "is_ValueError UnicodeDecodeError = True"
| "is_ValueError JSONDecodeError = True"
| "is_ValueError _ = False"

fun is_AuthenticationError :: "error \<Rightarrow> bool" where
  "is_AuthenticationError (AuthenticationError _ _) = True"
| "is_AuthenticationError _ = False"

section \<open>String primitives of Python\<close>

text \<open>\<^verbatim>\<open>s.endswith(suffix)\<close>.\<close>

definition endswith :: "str \<Rightarrow> str \<Rightarrow> bool" where
  "endswith s suffix \<longleftrightarrow>
     length suffix \<le> length s \<and> drop (length s - length suffix) s = suffix"

text \<open>
  \<^verbatim>\<open>s[:-n]\<close> for \<open>n \<ge> 0\<close>: \<^verbatim>\<open>s[:-0]\<close> is \<^verbatim>\<open>s[:0]\<close>, the empty string; otherwise the
  last \<open>n\<close> code points are dropped, and nothing is left when \<open>n\<close> exceeds the length.
\<close>

definition slice_to_neg :: "str \<Rightarrow> nat \<Rightarrow> str" where
  "slice_to_neg s n = (if n = 0 then [] else take (length s - n) s)"

text \<open>\<^verbatim>\<open>sep.join(xs)\<close>.\<close>

fun join :: "str \<Rightarrow> str list \<Rightarrow> str" where
  "join sep [] = []"
| "join sep [x] = x"
| "join sep (x # y # ys) = x @ sep @ join sep (y # ys)"

text \<open>\<^verbatim>\<open>sub in s\<close> on strings: \<open>sub\<close> occurs in \<open>s\<close>.\<close>

fun contains :: "str \<Rightarrow> str \<Rightarrow> bool" where
  "contains [] sub = (sub = [])"
| "contains (c # cs) sub = (take (length sub) (c # cs) = sub \<or> contains cs sub)"

section \<open>Resource and scope conversion\<close>

text \<open>
  \<^verbatim>\<open>
  def resource_to_scopes(resource):
      scope = resource + '/.default'
      return [scope]
  \<close>
\<close>

definition resource_to_scopes :: "str \<Rightarrow> str list" where
  "resource_to_scopes resource = (let scope = resource @ lit ''/.default'' in [scope])"

text \<open>
  \<^verbatim>\<open>
  def scopes_to_resource(scopes):
      scope = scopes[0]
      suffixes = ['/.default', '/user_impersonation']
      for s in suffixes:
          if scope.endswith(s):
              return scope[:-len(s)]
      return scope
  \<close>
  The loop over the suffixes is \<open>strip_first_suffix\<close>; \<^verbatim>\<open>scopes[0]\<close> raises
  \<open>IndexError\<close> on an empty list.
\<close>

definition suffixes :: "str list" where
  "suffixes = [lit ''/.default'', lit ''/user_impersonation'']"

fun strip_first_suffix :: "str \<Rightarrow> str list \<Rightarrow> str" where
  "strip_first_suffix scope [] = scope"
| "strip_first_suffix scope (s # ss) =
     (if endswith scope s then slice_to_neg scope (length s)
      else strip_first_suffix scope ss)"

definition scopes_to_resource :: "str list \<Rightarrow> error + str" where
  "scopes_to_resource scopes =
     (case scopes of
        [] \<Rightarrow> Inl IndexError
      | scope # _ \<Rightarrow> Inr (strip_first_suffix scope suffixes))"

section \<open>Text and byte codecs of the Python standard library\<close>

text \<open>
  The claims codec of the module calls \<^verbatim>\<open>str.encode()\<close>, \<^verbatim>\<open>bytes.decode()\<close>,
  \<^verbatim>\<open>base64.urlsafe_b64encode\<close> and \<^verbatim>\<open>base64.urlsafe_b64decode\<close>. They belong to
  the Python standard library, not to the repository; the definitions of this section
  are models of what CPython does, written so that they run.
\<close>

subsection \<open>UTF-8\<close>

text \<open>
  \<^verbatim>\<open>s.encode()\<close> encodes in UTF-8 with strict error handling: a surrogate code
  point raises \<open>UnicodeEncodeError\<close>. Numbers that are no code points at all get the
  same answer, so that they never produce bytes.
\<close>

definition encodable :: "nat \<Rightarrow> bool" where
  "encodable c \<longleftrightarrow> c < 0xD800 \<or> (0xE000 \<le> c \<and> c < 0x110000)"

definition utf8_bytes :: "nat \<Rightarrow> bytes" where
  "utf8_bytes c =
     (if c < 0x80 then [c]
      else if c < 0x800 then [0xC0 + c div 64, 0x80 + c mod 64]
      else if c < 0x10000 then
        [0xE0 + c div 4096, 0x80 + (c div 64) mod 64, 0x80 + c mod 64]
      else
        [0xF0 + c div 262144, 0x80 + (c div 4096) mod 64,
         0x80 + (c div 64) mod 64, 0x80 + c mod 64])"

fun str_encode :: "str \<Rightarrow> error + bytes" where
  "str_encode [] = Inr []"
| "str_encode (c # cs) =
     (if encodable c then
        (case str_encode cs of
           Inl e \<Rightarrow> Inl e
         | Inr bs \<Rightarrow> Inr (utf8_bytes c @ bs))
      else Inl UnicodeEncodeError)"

text \<open>
  \<^verbatim>\<open>b.decode()\<close> decodes UTF-8 with strict error handling: a byte that starts no
  sequence, a missing or wrong continuation byte, an overlong form, a surrogate and a
  value above U+10FFFF all raise \<open>UnicodeDecodeError\<close>.
\<close>

definition continuation :: "nat \<Rightarrow> bool" where
  "continuation b \<longleftrightarrow> 0x80 \<le> b \<and> b < 0xC0"

fun bytes_decode :: "bytes \<Rightarrow> error + str" where
  "bytes_decode [] = Inr []"
| "bytes_decode (b0 # bs) =
     (if b0 < 0x80 then
        (case bytes_decode bs of Inl e \<Rightarrow> Inl e | Inr s \<Rightarrow> Inr (b0 # s))
      else if 0xC0 \<le> b0 \<and> b0 < 0xE0 then
        (case bs of
           b1 # rest \<Rightarrow>
             (let c = (b0 - 0xC0) * 64 + (b1 - 0x80) in
              if continuation b1 \<and> 0x80 \<le> c then
                (case bytes_decode rest of Inl e \<Rightarrow> Inl e | Inr s \<Rightarrow> Inr (c # s))
              else Inl UnicodeDecodeError)
         | _ \<Rightarrow> Inl UnicodeDecodeError)
      else if 0xE0 \<le> b0 \<and> b0 < 0xF0 then
        (case bs of
           b1 # b2 # rest \<Rightarrow>
             (let c = (b0 - 0xE0) * 4096 + (b1 - 0x80) * 64 + (b2 - 0x80) in
              if continuation b1 \<and> continuation b2 \<and> 0x800 \<le> c \<and> encodable c then
                (case bytes_decode rest of Inl e \<Rightarrow> Inl e | Inr s \<Rightarrow> Inr (c # s))
              else Inl UnicodeDecodeError)
         | _ \<Rightarrow> Inl UnicodeDecodeError)
      else if 0xF0 \<le> b0 \<and> b0 < 0xF8 then
        (case bs of
           b1 # b2 # b3 # rest \<Rightarrow>
             (let c = (b0 - 0xF0) * 262144 + (b1 - 0x80) * 4096
                      + (b2 - 0x80) * 64 + (b3 - 0x80) in
              if continuation b1 \<and> continuation b2 \<and> continuation b3
                 \<and> 0x10000 \<le> c \<and> c < 0x110000 then
                (case bytes_decode rest of Inl e \<Rightarrow> Inl e | Inr s \<Rightarrow> Inr (c # s))
              else Inl UnicodeDecodeError)
         | _ \<Rightarrow> Inl UnicodeDecodeError)
      else Inl UnicodeDecodeError)"

subsection \<open>Base64\<close>

text \<open>
  \<^verbatim>\<open>binascii.b2a_base64\<close> without the newline: three bytes give four characters of
  the standard alphabet, and a last group of one or two bytes is padded with \<^verbatim>\<open>=\<close>
  (code 61).
\<close>

definition table_b2a_base64 :: "nat \<Rightarrow> nat" where
  "table_b2a_base64 n =
     (if n < 26 then 65 + n
      else if n < 52 then 97 + (n - 26)
      else if n < 62 then 48 + (n - 52)
      else if n = 62 then 43
      else 47)"

fun b2a_base64 :: "bytes \<Rightarrow> bytes" where
  "b2a_base64 (a # b # c # rest) =
     [table_b2a_base64 (a div 4),
      table_b2a_base64 ((a mod 4) * 16 + b div 16),
      table_b2a_base64 ((b mod 16) * 4 + c div 64),
      table_b2a_base64 (c mod 64)] @ b2a_base64 rest"
| "b2a_base64 [a, b] =
     [table_b2a_base64 (a div 4),
      table_b2a_base64 ((a mod 4) * 16 + b div 16),
      table_b2a_base64 ((b mod 16) * 4),
      61]"
| "b2a_base64 [a] =
     [table_b2a_base64 (a div 4),
      table_b2a_base64 ((a mod 4) * 16),
      61, 61]"
| "b2a_base64 [] = []"

text \<open>
  \<^verbatim>\<open>base64.urlsafe_b64encode(s)\<close> is \<^verbatim>\<open>b64encode(s).translate(...)\<close>, which writes
  \<^verbatim>\<open>-\<close> (45) for \<^verbatim>\<open>+\<close> (43) and \<^verbatim>\<open>_\<close> (95) for \<^verbatim>\<open>/\<close> (47).
\<close>

definition urlsafe_encode_translation :: "nat \<Rightarrow> nat" where
  "urlsafe_encode_translation c = (if c = 43 then 45 else if c = 47 then 95 else c)"

definition urlsafe_b64encode :: "bytes \<Rightarrow> bytes" where
  "urlsafe_b64encode s = map urlsafe_encode_translation (b2a_base64 s)"

text \<open>
  \<^verbatim>\<open>binascii.a2b_base64\<close> in its default, non-strict mode. A byte outside the
  alphabet is skipped. A \<^verbatim>\<open>=\<close> ends the input once the current group of four holds
  at least two characters and the padding completes it; other \<^verbatim>\<open>=\<close> are skipped.
  When the input ends inside a group, \<open>binascii.Error\<close> is raised. The state of the
  loop is the position in the group \<open>quad_pos\<close>, the bits left over \<open>leftchar\<close>, the
  count of padding characters \<open>pads\<close> and the bytes written.
\<close>

definition table_a2b_base64 :: "nat \<Rightarrow> nat option" where
  "table_a2b_base64 c =
     (if 65 \<le> c \<and> c \<le> 90 then Some (c - 65)
      else if 97 \<le> c \<and> c \<le> 122 then Some (c - 71)
      else if 48 \<le> c \<and> c \<le> 57 then Some (c + 4)
      else if c = 43 then Some 62
      else if c = 47 then Some 63
      else None)"

fun a2b_base64_loop :: "bytes \<Rightarrow> nat \<Rightarrow> nat \<Rightarrow> nat \<Rightarrow> bytes \<Rightarrow> error + bytes" where
  "a2b_base64_loop [] quad_pos leftchar pads out =
     (if quad_pos \<noteq> 0 then Inl BinasciiError else Inr out)"
| "a2b_base64_loop (this_ch # rest) quad_pos leftchar pads out =
     (if this_ch = 61 then
        (if 2 \<le> quad_pos \<and> 4 \<le> quad_pos + (pads + 1) then Inr out
         else a2b_base64_loop rest quad_pos leftchar
                (if 2 \<le> quad_pos then pads + 1 else pads) out)
      else
        (case table_a2b_base64 this_ch of
           None \<Rightarrow> a2b_base64_loop rest quad_pos leftchar pads out
         | Some v \<Rightarrow>
             (if quad_pos = 0 then a2b_base64_loop rest 1 v 0 out
              else if quad_pos = 1 then
                a2b_base64_loop rest 2 (v mod 16) 0 (out @ [leftchar * 4 + v div 16])
              else if quad_pos = 2 then
                a2b_base64_loop rest 3 (v mod 4) 0 (out @ [leftchar * 16 + v div 4])
              else
                a2b_base64_loop rest 0 0 0 (out @ [leftchar * 64 + v]))))"

definition a2b_base64 :: "bytes \<Rightarrow> error + bytes" where
  "a2b_base64 s = a2b_base64_loop s 0 0 0 []"

text \<open>
  \<^verbatim>\<open>base64.urlsafe_b64decode(s)\<close> on a \<^verbatim>\<open>str\<close>: the string is turned into bytes
  with \<^verbatim>\<open>s.encode('ascii')\<close>, where a code point from 128 on raises \<open>ValueError\<close>;
  then \<^verbatim>\<open>-\<close> becomes \<^verbatim>\<open>+\<close> and \<^verbatim>\<open>_\<close> becomes \<^verbatim>\<open>/\<close>, and the result is decoded by
  \<open>a2b_base64\<close>.
\<close>

definition urlsafe_decode_translation :: "nat \<Rightarrow> nat" where
  "urlsafe_decode_translation c = (if c = 45 then 43 else if c = 95 then 47 else c)"

definition urlsafe_b64decode :: "str \<Rightarrow> error + bytes" where
  "urlsafe_b64decode s =
     (if \<exists>c \<in> set s. 128 \<le> c then Inl ValueError
      else a2b_base64 (map urlsafe_decode_translation s))"

section \<open>Claims codec\<close>

text \<open>
  \<^verbatim>\<open>
  def encode_claims(claims: str):
      try:
          base64.urlsafe_b64decode(claims)
          is_base64 = True
      except ValueError:
          is_base64 = False
      if not is_base64:
          claims = base64.urlsafe_b64encode(claims.encode()).decode()
      return claims
  \<close>
\<close>

definition encode_claims :: "str \<Rightarrow> error + str" where
  "encode_claims claims =
     (case urlsafe_b64decode claims of
        Inr _ \<Rightarrow> Inr claims
      | Inl e \<Rightarrow>
          if is_ValueError e then
            (case str_encode claims of
               Inl e' \<Rightarrow> Inl e'
             | Inr bs \<Rightarrow> bytes_decode (urlsafe_b64encode bs))
          else Inl e)"

text \<open>
  \<^verbatim>\<open>
  def decode_claims(claims: str):
      try:
          claims = base64.urlsafe_b64decode(claims).decode()
      except ValueError:
          pass
      return claims
  \<close>
\<close>

definition decode_claims :: "str \<Rightarrow> error + str" where
  "decode_claims claims =
     (case (case urlsafe_b64decode claims of
              Inl e \<Rightarrow> Inl e
            | Inr bs \<Rightarrow> bytes_decode bs) of
        Inr decoded \<Rightarrow> Inr decoded
      | Inl e \<Rightarrow> if is_ValueError e then Inr claims else Inl e)"

section \<open>Login command and login message\<close>

text \<open>
  \<^verbatim>\<open>
  def _generate_login_command(scopes=None, claims=None):
      login_command = ['az login']
      if claims:
          login_command.append('--claims {}'.format(encode_claims(claims)))
          return 'az logout\n' + ' '.join(login_command)
      elif scopes:
          login_command.append('--scope {}'.format(' '.join(scopes)))
      return ' '.join(login_command)
  \<close>
  The keyword arguments are optional values: \<open>None\<close> is Python's \<^verbatim>\<open>None\<close>, the
  default. \<^verbatim>\<open>if claims\<close> holds for a non-empty string, \<^verbatim>\<open>elif scopes\<close> for a
  non-empty list; the equations are tried in this order. The names of the source that
  start with an underscore are written without it.
\<close>

fun generate_login_command :: "str list option \<Rightarrow> str option \<Rightarrow> error + str" where
  "generate_login_command scopes (Some (c # cs)) =
     (let login_command = [lit ''az login''] in
      case encode_claims (c # cs) of
        Inl e \<Rightarrow> Inl e
      | Inr encoded \<Rightarrow>
          Inr (lit ''az logout\<newline>''
               @ join (lit '' '') (login_command @ [lit ''--claims '' @ encoded])))"
| "generate_login_command (Some (s # ss)) claims =
     (let login_command = [lit ''az login''] in
      Inr (join (lit '' '')
             (login_command @ [lit ''--scope '' @ join (lit '' '') (s # ss)])))"
| "generate_login_command scopes claims =
     (let login_command = [lit ''az login''] in
      Inr (join (lit '' '') login_command))"

text \<open>
  \<^verbatim>\<open>
  def _generate_login_message(**kwargs):
      from azure.cli.core.util import in_cloud_console
      login_command = _generate_login_command(**kwargs)
      login_msg = "To re-authenticate, please {}" .format(
          "refresh Azure Portal." if in_cloud_console() else "run:\n{}".format(login_command))
      contact_admin_msg = "If the problem persists, please contact your tenant administrator."
      return "{}\n\n{}".format(login_msg, contact_admin_msg)
  \<close>
  \<^verbatim>\<open>in_cloud_console()\<close> reads the environment of the process; its answer is the
  parameter \<open>in_cloud_console\<close>. The keyword arguments are those of
  \<open>generate_login_command\<close>.
\<close>

definition generate_login_message ::
  "bool \<Rightarrow> str list option \<Rightarrow> str option \<Rightarrow> error + str" where
  "generate_login_message in_cloud_console scopes claims =
     (case generate_login_command scopes claims of
        Inl e \<Rightarrow> Inl e
      | Inr login_command \<Rightarrow>
          (let login_msg = lit ''To re-authenticate, please ''
                 @ (if in_cloud_console then lit ''refresh Azure Portal.''
                    else lit ''run:\<newline>'' @ login_command);
               contact_admin_msg =
                 lit ''If the problem persists, please contact your tenant administrator.''
           in Inr (login_msg @ lit ''\<newline>\<newline>'' @ contact_admin_msg)))"

section \<open>Error handler and result classifier\<close>

text \<open>\<^verbatim>\<open>d.get(key)\<close>, \<^verbatim>\<open>d[key]\<close> and \<^verbatim>\<open>key in d\<close> on a dictionary.\<close>

definition dict_get :: "pydict \<Rightarrow> str \<Rightarrow> pyval" where
  "dict_get d key = (case map_of d key of None \<Rightarrow> PNone | Some v \<Rightarrow> v)"

definition dict_item :: "pydict \<Rightarrow> str \<Rightarrow> error + pyval" where
  "dict_item d key = (case map_of d key of None \<Rightarrow> Inl (KeyError key) | Some v \<Rightarrow> Inr v)"

definition dict_contains :: "pydict \<Rightarrow> str \<Rightarrow> bool" where
  "dict_contains d key \<longleftrightarrow> map_of d key \<noteq> None"

text \<open>
  \<^verbatim>\<open>
  def aad_error_handler(error, **kwargs):
      msg = error.get('error_description')
      login_message = _generate_login_message(**kwargs)
      from azure.cli.core.azclierror import AuthenticationError
      raise AuthenticationError(msg, recommendation=login_message)
  \<close>
  The function has no \<^verbatim>\<open>return\<close>; its result type says so: a value \<open>Inr ()\<close>
  would be a normal return.
\<close>

definition aad_error_handler ::
  "bool \<Rightarrow> pydict \<Rightarrow> str list option \<Rightarrow> str option \<Rightarrow> error + unit" where
  "aad_error_handler in_cloud_console error scopes claims =
     (let msg = dict_get error (lit ''error_description'') in
      case generate_login_message in_cloud_console scopes claims of
        Inl e \<Rightarrow> Inl e
      | Inr login_message \<Rightarrow> Inl (AuthenticationError msg login_message))"

text \<open>
  \<^verbatim>\<open>
  def check_result(result, **kwargs):
      from azure.cli.core.azclierror import AuthenticationError
      if not result:
          raise AuthenticationError("Can't find token from MSAL cache.",
                                    recommendation="To re-authenticate, please run:\naz login")
      if 'error' in result:
          aad_error_handler(result, **kwargs)
      # For user authentication
      if 'id_token_claims' in result:
          idt = result['id_token_claims']
          return {
              # AAD returns "preferred_username", ADFS returns "upn"
              'username': idt.get("preferred_username") or idt["upn"],
              'tenantId': idt['tid']
          }
      return None
  \<close>
  \<open>result\<close> is \<^verbatim>\<open>None\<close> or a dictionary; \<^verbatim>\<open>not result\<close> holds for \<^verbatim>\<open>None\<close> and
  for the empty dictionary. \<^verbatim>\<open>x or y\<close> is \<open>x\<close> when \<open>x\<close> is true and \<open>y\<close>
  otherwise, and \<open>y\<close> is evaluated only then. An \<^verbatim>\<open>id_token_claims\<close> that is not a
  dictionary has no \<^verbatim>\<open>get\<close>: \<open>AttributeError\<close>.
\<close>

definition id_token_identity :: "pyval \<Rightarrow> error + pyval" where
  "id_token_identity idt =
     (case idt of
        PDict d \<Rightarrow>
          (case (let preferred = dict_get d (lit ''preferred_username'') in
                 if truthy preferred then Inr preferred else dict_item d (lit ''upn'')) of
             Inl e \<Rightarrow> Inl e
           | Inr username \<Rightarrow>
               (case dict_item d (lit ''tid'') of
                  Inl e \<Rightarrow> Inl e
                | Inr tid \<Rightarrow>
                    Inr (PDict [(lit ''username'', username), (lit ''tenantId'', tid)])))
      | _ \<Rightarrow> Inl AttributeError)"

definition check_result ::
  "bool \<Rightarrow> pydict option \<Rightarrow> str list option \<Rightarrow> str option \<Rightarrow> error + pyval" where
  "check_result in_cloud_console result scopes claims =
     (let no_token =
            AuthenticationError (PStr (lit ''Can't find token from MSAL cache.''))
              (lit ''To re-authenticate, please run:\<newline>az login'')
      in case result of
           None \<Rightarrow> Inl no_token
         | Some [] \<Rightarrow> Inl no_token
         | Some (kv # kvs) \<Rightarrow>
             (let result = kv # kvs in
              case (if dict_contains result (lit ''error'')
                    then aad_error_handler in_cloud_console result scopes claims
                    else Inr ()) of
                Inl e \<Rightarrow> Inl e
              | Inr _ \<Rightarrow>
                  (if dict_contains result (lit ''id_token_claims'')
                   then id_token_identity (dict_get result (lit ''id_token_claims''))
                   else Inr PNone)))"

section \<open>Access token\<close>

text \<open>\<^verbatim>\<open>s.split(sep)\<close> for a separator of one character: never an empty list.\<close>

fun str_split :: "nat \<Rightarrow> str \<Rightarrow> str list" where
  "str_split sep [] = [[]]"
| "str_split sep (c # cs) =
     (if c = sep then [] # str_split sep cs
      else (case str_split sep cs of
              [] \<Rightarrow> [[c]]
            | x # xs \<Rightarrow> (c # x) # xs))"

text \<open>
  \<^verbatim>\<open>msal.oauth2cli.oidc.decode_part\<close> belongs to the MSAL library. It restores the
  padding of a part of a JWT, decodes it and reads the bytes as UTF-8:
  \<^verbatim>\<open>
  def decode_part(raw, encoding="utf-8"):
      raw += '=' * (-len(raw) % 4)
      raw = str(raw)
      output = base64.urlsafe_b64decode(raw)
      if encoding:
          output = output.decode(encoding)
      return output
  \<close>
  Python's \<^verbatim>\<open>%\<close> takes the sign of the divisor, as \<open>mod\<close> on \<open>int\<close> does.
\<close>

definition padding_needed :: "str \<Rightarrow> nat" where
  "padding_needed s = nat ((- int (length s)) mod 4)"

definition decode_part :: "str \<Rightarrow> error + str" where
  "decode_part raw =
     (let raw = raw @ replicate (padding_needed raw) 61 in
      case urlsafe_b64decode raw of
        Inl e \<Rightarrow> Inl e
      | Inr output \<Rightarrow> bytes_decode output)"

text \<open>
  \<^verbatim>\<open>
  def decode_access_token(access_token):
      from msal.oauth2cli.oidc import decode_part
      import json
      decoded_str = decode_part(access_token.split('.')[1])
      return json.loads(decoded_str)
  \<close>
  \<^verbatim>\<open>json.loads\<close> is the parameter \<open>json_loads\<close>: it gives the parsed value, or
  \<open>None\<close> where the text is not JSON and \<^verbatim>\<open>json.loads\<close> raises \<open>JSONDecodeError\<close>.
  The index \<open>1\<close> raises \<open>IndexError\<close> on a list of one element.
\<close>

definition decode_access_token :: "(str \<Rightarrow> pyval option) \<Rightarrow> str \<Rightarrow> error + pyval" where
  "decode_access_token json_loads access_token =
     (case str_split 46 access_token of
        _ # claim_part # _ \<Rightarrow>
          (case decode_part claim_part of
             Inl e \<Rightarrow> Inl e
           | Inr decoded_str \<Rightarrow>
               (case json_loads decoded_str of
                  None \<Rightarrow> Inl JSONDecodeError
                | Some v \<Rightarrow> Inr v))
      | _ \<Rightarrow> Inl IndexError)"

section \<open>Claims challenge\<close>

text \<open>
  \<^verbatim>\<open>
  def _extract_claims(challenge):
      from azure.mgmt.core.policies._authentication import _parse_challenges
      parsed_challenges = _parse_challenges(challenge)
      if len(parsed_challenges) != 1 or "claims" not in parsed_challenges[0].parameters:
          return None
      encoded_claims = parsed_challenges[0].parameters["claims"]
      padding_needed = -len(encoded_claims) % 4
      return encoded_claims + "=" * padding_needed
  \<close>
  \<^verbatim>\<open>_parse_challenges\<close> belongs to the library \<^verbatim>\<open>azure-mgmt-core\<close>; it is the
  parameter \<open>parse_challenges\<close>, which takes what \<^verbatim>\<open>headers.get\<close> gave (a string,
  or \<^verbatim>\<open>None\<close> when the header is missing) and gives the list of challenges or raises.
  A challenge has a scheme and a dictionary of parameters. The test of the source
  leaves \<^verbatim>\<open>parsed_challenges[0]\<close> alone unless the list has one element, as the
  \<open>case\<close> on the list does.
\<close>

record challenge =
  scheme :: str
  parameters :: "(str \<times> str) list"

type_synonym challenge_parser = "str option \<Rightarrow> error + challenge list"

definition extract_claims :: "challenge_parser \<Rightarrow> str option \<Rightarrow> error + str option" where
  "extract_claims parse_challenges header =
     (case parse_challenges header of
        Inl e \<Rightarrow> Inl e
      | Inr parsed_challenges \<Rightarrow>
          (case parsed_challenges of
             [c] \<Rightarrow>
               (case map_of (parameters c) (lit ''claims'') of
                  None \<Rightarrow> Inr None
                | Some encoded_claims \<Rightarrow>
                    Inr (Some (encoded_claims
                               @ replicate (padding_needed encoded_claims) 61)))
           | _ \<Rightarrow> Inr None))"

text \<open>
  \<^verbatim>\<open>
  def handle_response_401_track1(response):
      challenge = response.headers.get('WWW-Authenticate')
      claims = _extract_claims(challenge)
      recommendation = (
          "The access token has expired or been revoked by Continuous Access Evaluation. "
          "Silent re-authentication will be attempted in the future.\n{}")
      login_message = _generate_login_message(claims=claims)
      return recommendation.format(login_message)
  \<close>
  The response is read through its headers only: \<open>headers\<close> is the mapping that
  \<^verbatim>\<open>response.headers.get\<close> looks the name up in.
\<close>

definition handle_response_401_track1 ::
  "challenge_parser \<Rightarrow> bool \<Rightarrow> (str \<rightharpoonup> str) \<Rightarrow> error + str" where
  "handle_response_401_track1 parse_challenges in_cloud_console headers =
     (let challenge = headers (lit ''WWW-Authenticate'') in
      case extract_claims parse_challenges challenge of
        Inl e \<Rightarrow> Inl e
      | Inr claims \<Rightarrow>
          (let recommendation =
                 lit ''The access token has expired or been revoked by Continuous Access Evaluation. ''
                 @ lit ''Silent re-authentication will be attempted in the future.\<newline>''
           in case generate_login_message in_cloud_console None claims of
                Inl e \<Rightarrow> Inl e
              | Inr login_message \<Rightarrow> Inr (recommendation @ login_message)))"

section \<open>Properties\<close>

subsection \<open>Strings\<close>

lemma endswith_append [simp]: "endswith (r @ s) s"
  by (simp add: endswith_def)

lemma endswith_iff: "endswith s suffix \<longleftrightarrow> (\<exists>r. s = r @ suffix)"
proof
  assume "endswith s suffix"
  then have "s = take (length s - length suffix) s @ suffix"
    by (metis append_take_drop_id endswith_def)
  then show "\<exists>r. s = r @ suffix" ..
next
  assume "\<exists>r. s = r @ suffix"
  then show "endswith s suffix" by auto
qed

lemma slice_to_neg_append:
  "n = length s \<Longrightarrow> s \<noteq> [] \<Longrightarrow> slice_to_neg (r @ s) n = r"
  by (simp add: slice_to_neg_def)

subsection \<open>Resource and scope conversion\<close>

text \<open>
  C1. For every resource string \<open>r\<close>, also one that ends in a slash, converting it to
  scopes and back returns \<open>r\<close>: \<open>scopes_to_resource (resource_to_scopes r)\<close> returns,
  and its value is \<open>r\<close>.
\<close>

theorem scopes_to_resource_resource_to_scopes:
  "scopes_to_resource (resource_to_scopes r) = Inr r"
  by (simp add: scopes_to_resource_def resource_to_scopes_def suffixes_def
      slice_to_neg_append)

text \<open>
  C5. On a non-empty scope list only the first scope is read. It is returned without
  its trailing \<^verbatim>\<open>/.default\<close>; when it does not end so, without its trailing
  \<^verbatim>\<open>/user_impersonation\<close>; when it ends in neither, unchanged. The scope
  \<^verbatim>\<open>https://management.core.windows.net//.default\<close> gives
  \<^verbatim>\<open>https://management.core.windows.net/\<close>.
\<close>

theorem scopes_to_resource_first_scope:
  "scopes_to_resource (scope # rest) =
     Inr (if endswith scope (lit ''/.default'')
          then take (length scope - length (lit ''/.default'')) scope
          else if endswith scope (lit ''/user_impersonation'')
          then take (length scope - length (lit ''/user_impersonation'')) scope
          else scope)
   \<and> (\<forall>r. scopes_to_resource ((r @ lit ''/.default'') # rest) = Inr r)
   \<and> (\<forall>r. \<not> endswith (r @ lit ''/user_impersonation'') (lit ''/.default'') \<and>
        scopes_to_resource ((r @ lit ''/user_impersonation'') # rest) = Inr r)
   \<and> scopes_to_resource [lit ''https://management.core.windows.net//.default'']
       = Inr (lit ''https://management.core.windows.net/'')"
  by (simp add: scopes_to_resource_def suffixes_def slice_to_neg_def endswith_def)

subsection \<open>Base64: decoding what the encoder wrote\<close>

text \<open>
  Three bytes are cut into four groups of six bits and put together again; the facts
  below are the arithmetic of that, and what the decoding table does to a character
  the encoder wrote.
\<close>

lemma div_mult_add: "y < m \<Longrightarrow> (x * m + y) div m = (x::nat)" by simp
lemma mod_mult_add: "y < m \<Longrightarrow> (x * m + y) mod m = (y::nat)" by simp
lemma byte_div16: "b < 256 \<Longrightarrow> b div 16 < (16::nat)" by (simp add: div_less_iff_less_mult)
lemma byte_div64: "c < 256 \<Longrightarrow> c div 64 < (4::nat)" by (simp add: div_less_iff_less_mult)
lemma byte_div4: "a < 256 \<Longrightarrow> a div 4 < (64::nat)" by (simp add: div_less_iff_less_mult)

lemma sextet2: assumes "b < 256" shows "(a mod 4) * 16 + b div 16 < (64::nat)"
proof -
  have "a mod 4 < 4" by simp
  then have "a mod 4 * 16 \<le> 48" by linarith
  with byte_div16[OF assms] show ?thesis by linarith
qed

lemma sextet3: assumes "c < 256" shows "(b mod 16) * 4 + c div 64 < (64::nat)"
proof -
  have "b mod 16 < 16" by simp
  then have "b mod 16 * 4 \<le> 60" by linarith
  with byte_div64[OF assms] show ?thesis by linarith
qed

lemma sextet2_last: "(a mod 4) * 16 < (64::nat)"
proof -
  have "a mod 4 < 4" by simp
  then show ?thesis by linarith
qed

lemma sextet3_last: "(b mod 16) * 4 < (64::nat)"
proof -
  have "b mod 16 < 16" by simp
  then show ?thesis by linarith
qed

lemma byte1: "b < 256 \<Longrightarrow> a div 4 * 4 + ((a mod 4) * 16 + b div 16) div 16 = (a::nat)"
  by (simp only: div_mult_add[OF byte_div16] div_mult_mod_eq)
lemma byte2: "b < 256 \<Longrightarrow> c < 256 \<Longrightarrow>
    ((a mod 4) * 16 + b div 16) mod 16 * 16 + ((b mod 16) * 4 + c div 64) div 4 = (b::nat)"
  by (simp only: mod_mult_add[OF byte_div16] div_mult_add[OF byte_div64] div_mult_mod_eq)
lemma byte3: "c < 256 \<Longrightarrow> ((b mod 16) * 4 + c div 64) mod 4 * 64 + c mod 64 = (c::nat)"
  by (simp only: mod_mult_add[OF byte_div64] div_mult_mod_eq)
lemma byte1_last: "a div 4 * 4 + ((a mod 4) * 16) div 16 = (a::nat)"
  by simp
lemma byte2_last: "b < 256 \<Longrightarrow>
    ((a mod 4) * 16 + b div 16) mod 16 * 16 + ((b mod 16) * 4) div 4 = (b::nat)"
  by (simp only: mod_mult_add[OF byte_div16] nonzero_mult_div_cancel_right div_mult_mod_eq)

lemma table_roundtrip:
  "n < 64 \<Longrightarrow>
   table_a2b_base64 (urlsafe_decode_translation (urlsafe_encode_translation (table_b2a_base64 n)))
     = Some n"
  unfolding table_a2b_base64_def table_b2a_base64_def
    urlsafe_decode_translation_def urlsafe_encode_translation_def
  by auto

lemma table_not_pad:
  "n < 64 \<Longrightarrow>
   urlsafe_decode_translation (urlsafe_encode_translation (table_b2a_base64 n)) \<noteq> 61"
  unfolding table_b2a_base64_def urlsafe_decode_translation_def urlsafe_encode_translation_def
  by auto

lemma table_ascii: "n < 64 \<Longrightarrow> urlsafe_encode_translation (table_b2a_base64 n) < 128"
  unfolding table_b2a_base64_def urlsafe_encode_translation_def
  by auto

lemma pad_translation:
  "urlsafe_decode_translation (urlsafe_encode_translation 61) = 61"
  by (simp add: urlsafe_decode_translation_def urlsafe_encode_translation_def)

lemma loop_data:
  "n < 64 \<Longrightarrow>
   a2b_base64_loop
     (urlsafe_decode_translation (urlsafe_encode_translation (table_b2a_base64 n)) # rest)
     q l p out =
     (if q = 0 then a2b_base64_loop rest 1 n 0 out
      else if q = 1 then a2b_base64_loop rest 2 (n mod 16) 0 (out @ [l * 4 + n div 16])
      else if q = 2 then a2b_base64_loop rest 3 (n mod 4) 0 (out @ [l * 16 + n div 4])
      else a2b_base64_loop rest 0 0 0 (out @ [l * 64 + n]))"
  by (simp add: table_roundtrip table_not_pad)

lemma loop_pad:
  "a2b_base64_loop (61 # rest) q l p out =
     (if 2 \<le> q \<and> 4 \<le> q + (p + 1) then Inr out
      else a2b_base64_loop rest q l (if 2 \<le> q then p + 1 else p) out)"
  by simp

text \<open>
  From the start of a group the loop reads back any encoded byte string, padding
  included, whatever it had written before.
\<close>

lemma a2b_b2a_loop:
  "\<forall>b \<in> set bs. b < 256 \<Longrightarrow>
   a2b_base64_loop (map urlsafe_decode_translation (urlsafe_b64encode bs)) 0 l p out
     = Inr (out @ bs)"
proof (induction bs arbitrary: l p out rule: b2a_base64.induct)
  case (1 a b c rest)
  then have ab: "a < 256" "b < 256" "c < 256" and r: "\<forall>b \<in> set rest. b < 256"
    by simp_all
  have "a2b_base64_loop (map urlsafe_decode_translation (urlsafe_b64encode (a # b # c # rest)))
          0 l p out
        = a2b_base64_loop (map urlsafe_decode_translation (urlsafe_b64encode rest))
          0 0 0 (out @ [a, b, c])"
    using ab
    by (simp add: urlsafe_b64encode_def loop_data byte_div4 sextet2 sextet3 byte1 byte2 byte3
        del: a2b_base64_loop.simps)
  also have "\<dots> = Inr ((out @ [a, b, c]) @ rest)"
    using "1.IH"[OF r] .
  finally show ?case by simp
next
  case (2 a b)
  then have ab: "a < 256" "b < 256" by simp_all
  show ?case
    using ab
    by (simp add: urlsafe_b64encode_def loop_data loop_pad pad_translation
        byte_div4 sextet2 sextet3_last byte1 byte2_last
        del: a2b_base64_loop.simps)
next
  case (3 a)
  then have a: "a < 256" by simp
  show ?case
    using a
    by (simp add: urlsafe_b64encode_def loop_data loop_pad pad_translation
        byte_div4 sextet2_last byte1_last
        del: a2b_base64_loop.simps)
next
  case 4
  show ?case by (simp add: urlsafe_b64encode_def)
qed

lemma urlsafe_b64encode_ascii:
  "\<forall>b \<in> set bs. b < 256 \<Longrightarrow> \<forall>c \<in> set (urlsafe_b64encode bs). c < 128"
proof (induction bs rule: b2a_base64.induct)
  case (1 a b c rest)
  then show ?case
    by (simp add: urlsafe_b64encode_def table_ascii byte_div4 sextet2 sextet3)
next
  case (2 a b)
  then show ?case
    by (simp add: urlsafe_b64encode_def table_ascii byte_div4 sextet2 sextet3_last
        urlsafe_encode_translation_def[of 61])
next
  case (3 a)
  then show ?case
    by (simp add: urlsafe_b64encode_def table_ascii byte_div4 sextet2_last
        urlsafe_encode_translation_def[of 61])
next
  case 4
  show ?case by (simp add: urlsafe_b64encode_def)
qed

lemma urlsafe_b64decode_b64encode:
  assumes "\<forall>b \<in> set bs. b < 256"
  shows "urlsafe_b64decode (urlsafe_b64encode bs) = Inr bs"
proof -
  have "\<not> (\<exists>c \<in> set (urlsafe_b64encode bs). 128 \<le> c)"
    using urlsafe_b64encode_ascii[OF assms] by (simp add: not_le)
  then show ?thesis
    using a2b_b2a_loop[OF assms, of 0 0 "[]"]
    by (simp add: urlsafe_b64decode_def a2b_base64_def)
qed

subsection \<open>UTF-8: decoding what the encoder wrote\<close>

text \<open>
  A code point is cut into groups of six bits below its leading byte; the decoder
  puts them together again and accepts the result, since it is in the range of its
  length and no surrogate.
\<close>

lemma recompose2: "c div 64 * 64 + c mod 64 = (c::nat)"
  by simp

lemma recompose3: "c div 4096 * 4096 + (c div 64) mod 64 * 64 + c mod 64 = (c::nat)"
proof -
  define d where "d = c div 64"
  have "c div 4096 = c div (64 * 64)" by simp
  also have "\<dots> = d div 64" unfolding d_def by (rule div_mult2_eq)
  finally have h: "c div 4096 = d div 64" .
  have g: "x * 4096 + y * 64 = (x * 64 + y) * 64" for x y :: nat
    by (simp add: add_mult_distrib)
  have "d div 64 * 4096 + d mod 64 * 64 = (d div 64 * 64 + d mod 64) * 64"
    by (rule g)
  also have "\<dots> = d * 64" by simp
  finally have "d div 64 * 4096 + d mod 64 * 64 + c mod 64 = d * 64 + c mod 64" by simp
  also have "\<dots> = c" unfolding d_def by simp
  finally show ?thesis unfolding h d_def .
qed

lemma recompose4:
  "c div 262144 * 262144 + (c div 4096) mod 64 * 4096 + (c div 64) mod 64 * 64 + c mod 64
     = (c::nat)"
proof -
  define e where "e = c div 4096"
  have "c div 262144 = c div (4096 * 64)" by simp
  also have "\<dots> = e div 64" unfolding e_def by (rule div_mult2_eq)
  finally have h: "c div 262144 = e div 64" .
  have g: "x * 262144 + y * 4096 = (x * 64 + y) * 4096" for x y :: nat
    by (simp add: add_mult_distrib)
  have "e div 64 * 262144 + e mod 64 * 4096 = (e div 64 * 64 + e mod 64) * 4096"
    by (rule g)
  also have "\<dots> = e * 4096" by simp
  finally have "e div 64 * 262144 + e mod 64 * 4096 + (c div 64) mod 64 * 64 + c mod 64
      = e * 4096 + (c div 64) mod 64 * 64 + c mod 64" by simp
  also have "\<dots> = c" unfolding e_def by (rule recompose3)
  finally show ?thesis unfolding h e_def .
qed

lemma decode1:
  "b < 0x80 \<Longrightarrow>
   bytes_decode (b # rest) =
     (case bytes_decode rest of Inl e \<Rightarrow> Inl e | Inr s \<Rightarrow> Inr (b # s))"
  by simp

lemma decode2:
  "h < 32 \<Longrightarrow> t < 64 \<Longrightarrow> 0x80 \<le> h * 64 + t \<Longrightarrow>
   bytes_decode ((0xC0 + h) # (0x80 + t) # rest) =
     (case bytes_decode rest of Inl e \<Rightarrow> Inl e | Inr s \<Rightarrow> Inr ((h * 64 + t) # s))"
  by (simp add: continuation_def)

lemma decode3:
  "h < 16 \<Longrightarrow> t1 < 64 \<Longrightarrow> t2 < 64 \<Longrightarrow> 0x800 \<le> h * 4096 + t1 * 64 + t2 \<Longrightarrow>
   encodable (h * 4096 + t1 * 64 + t2) \<Longrightarrow>
   bytes_decode ((0xE0 + h) # (0x80 + t1) # (0x80 + t2) # rest) =
     (case bytes_decode rest of Inl e \<Rightarrow> Inl e
      | Inr s \<Rightarrow> Inr ((h * 4096 + t1 * 64 + t2) # s))"
  by (simp add: continuation_def)

lemma decode4:
  "h < 8 \<Longrightarrow> t1 < 64 \<Longrightarrow> t2 < 64 \<Longrightarrow> t3 < 64 \<Longrightarrow>
   0x10000 \<le> h * 262144 + t1 * 4096 + t2 * 64 + t3 \<Longrightarrow>
   h * 262144 + t1 * 4096 + t2 * 64 + t3 < 0x110000 \<Longrightarrow>
   bytes_decode ((0xF0 + h) # (0x80 + t1) # (0x80 + t2) # (0x80 + t3) # rest) =
     (case bytes_decode rest of Inl e \<Rightarrow> Inl e
      | Inr s \<Rightarrow> Inr ((h * 262144 + t1 * 4096 + t2 * 64 + t3) # s))"
  by (simp add: continuation_def)

lemma bytes_decode_utf8_bytes:
  assumes "encodable c"
  shows "bytes_decode (utf8_bytes c @ rest) =
     (case bytes_decode rest of Inl e \<Rightarrow> Inl e | Inr s \<Rightarrow> Inr (c # s))"
proof -
  consider "c < 0x80" | "0x80 \<le> c" "c < 0x800" | "0x800 \<le> c" "c < 0x10000"
    | "0x10000 \<le> c" "c < 0x110000"
    using assms unfolding encodable_def by linarith
  then show ?thesis
  proof cases
    case 1
    then show ?thesis by (simp add: utf8_bytes_def)
  next
    case 2
    have h: "c div 64 < 32" using 2 by (simp add: div_less_iff_less_mult)
    have u: "utf8_bytes c = [0xC0 + c div 64, 0x80 + c mod 64]"
      using 2 by (simp add: utf8_bytes_def)
    show ?thesis
      unfolding u using decode2[of "c div 64" "c mod 64" rest] h 2
      by (simp only: recompose2 append_Cons append_Nil)
  next
    case 3
    have h: "c div 4096 < 16" using 3 by (simp add: div_less_iff_less_mult)
    have u: "utf8_bytes c = [0xE0 + c div 4096, 0x80 + (c div 64) mod 64, 0x80 + c mod 64]"
      using 3 by (simp add: utf8_bytes_def)
    show ?thesis
      unfolding u using decode3[of "c div 4096" "(c div 64) mod 64" "c mod 64" rest] h 3 assms
      by (simp only: recompose3 append_Cons append_Nil)
  next
    case 4
    have h: "c div 262144 < 8" using 4 by (simp add: div_less_iff_less_mult)
    have u: "utf8_bytes c = [0xF0 + c div 262144, 0x80 + (c div 4096) mod 64,
         0x80 + (c div 64) mod 64, 0x80 + c mod 64]"
      using 4 by (simp add: utf8_bytes_def)
    show ?thesis
      unfolding u
      using decode4[of "c div 262144" "(c div 4096) mod 64" "(c div 64) mod 64" "c mod 64" rest]
        h 4
      by (simp only: recompose4 append_Cons append_Nil)
  qed
qed

lemma utf8_bytes_byte:
  assumes "encodable c"
  shows "\<forall>b \<in> set (utf8_bytes c). b < 256"
proof -
  have m: "x mod 64 + 128 < 256" for x :: nat
  proof -
    have "x mod 64 < 64" by simp
    then show ?thesis by linarith
  qed
  consider "c < 0x80" | "0x80 \<le> c" "c < 0x800" | "0x800 \<le> c" "c < 0x10000"
    | "0x10000 \<le> c" "c < 0x110000"
    using assms unfolding encodable_def by linarith
  then show ?thesis
  proof cases
    case 1
    then show ?thesis by (simp add: utf8_bytes_def)
  next
    case 2
    have h: "c div 64 < 32" using 2 by (simp add: div_less_iff_less_mult)
    show ?thesis using 2 h m by (simp add: utf8_bytes_def add.commute)
  next
    case 3
    have h: "c div 4096 < 16" using 3 by (simp add: div_less_iff_less_mult)
    show ?thesis using 3 h m by (simp add: utf8_bytes_def add.commute)
  next
    case 4
    have h: "c div 262144 < 8" using 4 by (simp add: div_less_iff_less_mult)
    show ?thesis using 4 h m by (simp add: utf8_bytes_def add.commute)
  qed
qed

lemma str_encode_Inr_iff: "(\<exists>bs. str_encode s = Inr bs) \<longleftrightarrow> (\<forall>c \<in> set s. encodable c)"
  by (induction s) (auto split: sum.splits)

lemma str_encode_error: "str_encode s = Inl e \<Longrightarrow> e = UnicodeEncodeError"
  by (induction s arbitrary: e) (auto split: sum.splits if_splits)

lemma bytes_decode_str_encode: "str_encode s = Inr bs \<Longrightarrow> bytes_decode bs = Inr s"
proof (induction s arbitrary: bs)
  case Nil
  then show ?case by simp
next
  case (Cons c cs)
  from Cons.prems obtain bs' where c: "encodable c" and cs: "str_encode cs = Inr bs'"
    and bs: "bs = utf8_bytes c @ bs'"
    by (auto split: if_splits sum.splits)
  show ?case
    unfolding bs by (simp only: bytes_decode_utf8_bytes[OF c] Cons.IH[OF cs] sum.case)
qed

lemma str_encode_bytes: "str_encode s = Inr bs \<Longrightarrow> \<forall>b \<in> set bs. b < 256"
proof (induction s arbitrary: bs)
  case Nil
  then show ?case by simp
next
  case (Cons c cs)
  from Cons.prems obtain bs' where c: "encodable c" and cs: "str_encode cs = Inr bs'"
    and bs: "bs = utf8_bytes c @ bs'"
    by (auto split: if_splits sum.splits)
  show ?case
    unfolding bs using utf8_bytes_byte[OF c] Cons.IH[OF cs] by auto
qed

lemma bytes_decode_ascii: "\<forall>b \<in> set bs. b < 128 \<Longrightarrow> bytes_decode bs = Inr bs"
  by (induction bs) simp_all

lemma sum_case_Inl:
  "(case r of Inl e \<Rightarrow> Inl e | Inr s \<Rightarrow> Inr (f s)) = Inl e' \<longleftrightarrow> r = Inl e'"
  by (cases r) simp_all

lemma bytes_decode_error: "bytes_decode bs = Inl e \<Longrightarrow> e = UnicodeDecodeError"
proof (induction "length bs" arbitrary: bs e rule: less_induct)
  case less
  show ?case
  proof (cases bs)
    case Nil
    with less.prems show ?thesis by simp
  next
    case (Cons b0 rest)
    have IH: "bytes_decode r = Inl e \<Longrightarrow> length r \<le> length rest \<Longrightarrow> e = UnicodeDecodeError" for r
      using less.hyps[of r e] Cons by simp
    from less.prems show ?thesis
      unfolding Cons bytes_decode.simps Let_def
      by (auto simp: sum_case_Inl split: if_splits list.splits dest: IH)
  qed
qed

subsection \<open>Claims codec\<close>

text \<open>
  The decoders raise only subclasses of \<open>ValueError\<close>, so the \<^verbatim>\<open>except\<close> clauses of
  the codec catch all their errors; the encoder of the module then returns what the
  decoder accepts.
\<close>

lemma a2b_base64_loop_error:
  "a2b_base64_loop s q l p out = Inl e \<Longrightarrow> e = BinasciiError"
  by (induction s q l p out rule: a2b_base64_loop.induct)
     (auto split: if_splits option.splits)

lemma urlsafe_b64decode_error:
  "urlsafe_b64decode s = Inl e \<Longrightarrow> e = ValueError \<or> e = BinasciiError"
  by (auto simp: urlsafe_b64decode_def a2b_base64_def split: if_splits
      dest: a2b_base64_loop_error)

lemma urlsafe_b64decode_ValueError:
  "urlsafe_b64decode s = Inl e \<Longrightarrow> is_ValueError e"
  by (auto dest: urlsafe_b64decode_error)

lemma encode_claims_decodes:
  "urlsafe_b64decode x = Inr bs \<Longrightarrow> encode_claims x = Inr x"
  by (simp add: encode_claims_def)

lemma encode_claims_encodes:
  assumes "urlsafe_b64decode x = Inl e" and "str_encode x = Inr bs"
  shows "encode_claims x = Inr (urlsafe_b64encode bs)"
proof -
  have "bytes_decode (urlsafe_b64encode bs) = Inr (urlsafe_b64encode bs)"
    using urlsafe_b64encode_ascii[OF str_encode_bytes[OF assms(2)]]
    by (rule bytes_decode_ascii)
  then show ?thesis
    using assms urlsafe_b64decode_ValueError[OF assms(1)]
    by (simp add: encode_claims_def)
qed

lemma encode_claims_raises:
  assumes "urlsafe_b64decode x = Inl e" and "str_encode x = Inl e'"
  shows "encode_claims x = Inl UnicodeEncodeError"
  using assms urlsafe_b64decode_ValueError[OF assms(1)] str_encode_error[OF assms(2)]
  by (simp add: encode_claims_def)

lemma encode_claims_encoded:
  assumes "str_encode x = Inr bs"
  shows "encode_claims (urlsafe_b64encode bs) = Inr (urlsafe_b64encode bs)"
  using urlsafe_b64decode_b64encode[OF str_encode_bytes[OF assms]]
  by (rule encode_claims_decodes)

lemma decode_claims_encoded:
  assumes "str_encode x = Inr bs"
  shows "decode_claims (urlsafe_b64encode bs) = Inr x"
  using urlsafe_b64decode_b64encode[OF str_encode_bytes[OF assms]]
    bytes_decode_str_encode[OF assms]
  by (simp add: decode_claims_def)

lemma decode_claims_total: "\<exists>y. decode_claims x = Inr y"
proof (cases "urlsafe_b64decode x")
  case (Inl e)
  then show ?thesis
    using urlsafe_b64decode_ValueError[OF Inl] by (simp add: decode_claims_def)
next
  case (Inr bs)
  show ?thesis
  proof (cases "bytes_decode bs")
    case (Inl e)
    have "e = UnicodeDecodeError"
      using Inl by (rule bytes_decode_error)
    then show ?thesis using Inr Inl by (simp add: decode_claims_def)
  next
    case (Inr s)
    then show ?thesis using \<open>urlsafe_b64decode x = Inr bs\<close> by (simp add: decode_claims_def)
  qed
qed

lemmas codec_eval = encode_claims_def decode_claims_def urlsafe_b64decode_def a2b_base64_def
  table_a2b_base64_def urlsafe_decode_translation_def urlsafe_encode_translation_def
  table_b2a_base64_def urlsafe_b64encode_def encodable_def utf8_bytes_def continuation_def

lemma encode_claims_returns:
  assumes "(\<exists>bs. urlsafe_b64decode x = Inr bs) \<or> (\<forall>c \<in> set x. encodable c)"
  shows "\<exists>y. encode_claims x = Inr y \<and> encode_claims y = Inr y \<and>
           (case urlsafe_b64decode x of
              Inr _ \<Rightarrow> y = x
            | Inl _ \<Rightarrow> (\<exists>bs. str_encode x = Inr bs \<and> y = urlsafe_b64encode bs))"
proof (cases "urlsafe_b64decode x")
  case (Inr bs)
  then show ?thesis by (simp add: encode_claims_decodes)
next
  case (Inl e)
  with assms have "\<forall>c \<in> set x. encodable c" by simp
  then obtain bs where bs: "str_encode x = Inr bs"
    using str_encode_Inr_iff by blast
  show ?thesis
    using Inl bs encode_claims_encodes[OF Inl bs] encode_claims_encoded[OF bs] by simp
qed

text \<open>
  C6, as the code has it. \<open>encode_claims\<close> is idempotent wherever it returns, and it
  returns on every string that the base64url decoder accepts or that holds no lone
  surrogate: on such an \<open>x\<close> it gives a \<open>y\<close> with \<open>encode_claims y = y\<close>; \<open>y\<close> is
  \<open>x\<close> itself when \<open>x\<close> decodes without error, and the base64url encoding of the
  UTF-8 bytes of \<open>x\<close> otherwise.
\<close>

theorem encode_claims_idempotent:
  assumes "(\<exists>bs. urlsafe_b64decode x = Inr bs) \<or> (\<forall>c \<in> set x. encodable c)"
  shows "\<exists>y. encode_claims x = Inr y \<and> encode_claims y = Inr y \<and>
           (case urlsafe_b64decode x of
              Inr _ \<Rightarrow> y = x
            | Inl _ \<Rightarrow> (\<exists>bs. str_encode x = Inr bs \<and> y = urlsafe_b64encode bs))"
  using assms by (rule encode_claims_returns)

text \<open>The string \<^verbatim>\<open>abc\<close> does not decode; it is encoded to \<^verbatim>\<open>YWJj\<close>, which stays.\<close>

theorem encode_claims_idempotent_witness:
  "encode_claims (lit ''abc'') = Inr (lit ''YWJj'')
   \<and> encode_claims (lit ''YWJj'') = Inr (lit ''YWJj'')"
proof -
  have h: "(\<exists>bs. urlsafe_b64decode (lit ''abc'') = Inr bs)
           \<or> (\<forall>c \<in> set (lit ''abc''). encodable c)"
    by (simp add: encodable_def)
  have e: "encode_claims (lit ''abc'') = Inr (lit ''YWJj'')"
    by (simp add: codec_eval)
  from encode_claims_idempotent[OF h] e show ?thesis by auto
qed

text \<open>
  C6 as the specification words it, for every input string, fails on the string of the
  one code point U+D800: the decoder refuses it (it is not ASCII), so the encoder is
  tried, and \<^verbatim>\<open>claims.encode()\<close> raises \<open>UnicodeEncodeError\<close>. Nothing is returned.
\<close>

theorem encode_claims_surrogate:
  "urlsafe_b64decode [0xD800] = Inl ValueError
   \<and> encode_claims [0xD800] = Inl UnicodeEncodeError"
  by (simp add: codec_eval)

lemma decode_encode_claims:
  assumes "urlsafe_b64decode x = Inl e" and "\<forall>c \<in> set x. encodable c"
  shows "\<exists>y. encode_claims x = Inr y \<and> decode_claims y = Inr x"
proof -
  obtain bs where bs: "str_encode x = Inr bs"
    using assms(2) str_encode_Inr_iff by blast
  show ?thesis
    using encode_claims_encodes[OF assms(1) bs] decode_claims_encoded[OF bs] by simp
qed

text \<open>
  C9, as the code has it. A string \<open>x\<close> that the base64url decoder does not accept and
  that holds no lone surrogate comes back: \<open>encode_claims x\<close> returns some \<open>y\<close> and
  \<open>decode_claims y\<close> returns \<open>x\<close>. A string that already decodes does not come back
  in general: \<^verbatim>\<open>YWJj\<close> is left as it is by the encoder and decoded to \<^verbatim>\<open>abc\<close>.
\<close>

theorem decode_claims_encode_claims:
  "((\<exists>e. urlsafe_b64decode x = Inl e) \<and> (\<forall>c \<in> set x. encodable c)
      \<longrightarrow> (\<exists>y. encode_claims x = Inr y \<and> decode_claims y = Inr x))
   \<and> (\<exists>bs. urlsafe_b64decode (lit ''YWJj'') = Inr bs)
   \<and> encode_claims (lit ''YWJj'') = Inr (lit ''YWJj'')
   \<and> decode_claims (lit ''YWJj'') = Inr (lit ''abc'')"
proof -
  have "urlsafe_b64decode (lit ''YWJj'') = Inr (lit ''abc'')"
    by (simp add: codec_eval)
  moreover have "encode_claims (lit ''YWJj'') = Inr (lit ''YWJj'')"
    by (simp add: codec_eval)
  moreover have "decode_claims (lit ''YWJj'') = Inr (lit ''abc'')"
    by (simp add: codec_eval)
  ultimately show ?thesis
    using decode_encode_claims[of x] by auto
qed

text \<open>
  The string \<^verbatim>\<open>a\<close> is refused by the decoder (one character is no group); it is
  encoded to \<^verbatim>\<open>YQ==\<close> and decoded back.
\<close>

theorem decode_claims_encode_claims_witness:
  "urlsafe_b64decode (lit ''a'') = Inl BinasciiError
   \<and> encode_claims (lit ''a'') = Inr (lit ''YQ=='')
   \<and> decode_claims (lit ''YQ=='') = Inr (lit ''a'')"
proof -
  have d: "urlsafe_b64decode (lit ''a'') = Inl BinasciiError"
    by (simp add: codec_eval)
  have h: "\<forall>c \<in> set (lit ''a''). encodable c"
    by (simp add: encodable_def)
  have e: "encode_claims (lit ''a'') = Inr (lit ''YQ=='')"
    by (simp add: codec_eval)
  from decode_claims_encode_claims[of "lit ''a''"] d h e show ?thesis by auto
qed

text \<open>
  C9 as the specification words it fails on the string of \<^verbatim>\<open>a\<close> and U+DFFF: the
  decoder does not accept it, and \<open>encode_claims\<close> raises instead of returning.
\<close>

theorem decode_claims_encode_claims_surrogate:
  "urlsafe_b64decode [97, 0xDFFF] = Inl ValueError
   \<and> encode_claims [97, 0xDFFF] = Inl UnicodeEncodeError"
  by (simp add: codec_eval)

subsection \<open>Login command\<close>

lemma generate_login_command_claims:
  "generate_login_command scopes (Some (c # cs)) =
     (case encode_claims (c # cs) of
        Inl e \<Rightarrow> Inl e
      | Inr encoded \<Rightarrow> Inr (lit ''az logout\<newline>az login --claims '' @ encoded))"
  by (simp split: sum.splits)

lemma generate_login_command_scopes:
  "claims = None \<or> claims = Some [] \<Longrightarrow>
   generate_login_command (Some (s # ss)) claims =
     Inr (lit ''az login --scope '' @ join (lit '' '') (s # ss))"
  by auto

lemma generate_login_command_bare:
  "claims = None \<or> claims = Some [] \<Longrightarrow> scopes = None \<or> scopes = Some [] \<Longrightarrow>
   generate_login_command scopes claims = Inr (lit ''az login'')"
  by auto

text \<open>
  C4, as the code has it. The composer has three branches. With non-empty claims the
  result is that of \<open>encode_claims\<close>: its error, or the two lines \<^verbatim>\<open>az logout\<close> and
  \<^verbatim>\<open>az login --claims\<close> followed by the encoded claims, whatever the scopes are;
  the two lines are returned whenever the claims decode as base64url or hold no lone
  surrogate. With empty or absent claims and non-empty scopes the result is
  \<^verbatim>\<open>az login --scope\<close> followed by the scopes joined by spaces. With neither it is
  \<^verbatim>\<open>az login\<close>.
\<close>

theorem generate_login_command_branches:
  "generate_login_command scopes (Some (c # cs)) =
     (case encode_claims (c # cs) of
        Inl e \<Rightarrow> Inl e
      | Inr encoded \<Rightarrow> Inr (lit ''az logout\<newline>az login --claims '' @ encoded))
   \<and> ((\<exists>bs. urlsafe_b64decode (c # cs) = Inr bs) \<or> (\<forall>x \<in> set (c # cs). encodable x)
        \<longrightarrow> (\<exists>encoded. encode_claims (c # cs) = Inr encoded \<and>
               generate_login_command scopes (Some (c # cs)) =
                 Inr (lit ''az logout\<newline>az login --claims '' @ encoded)))
   \<and> (claims = None \<or> claims = Some []
        \<longrightarrow> generate_login_command (Some (s # ss)) claims =
              Inr (lit ''az login --scope '' @ join (lit '' '') (s # ss)))
   \<and> ((claims = None \<or> claims = Some []) \<and> (scopes = None \<or> scopes = Some [])
        \<longrightarrow> generate_login_command scopes claims = Inr (lit ''az login''))"
proof -
  have "\<exists>encoded. encode_claims (c # cs) = Inr encoded \<and>
          generate_login_command scopes (Some (c # cs)) =
            Inr (lit ''az logout\<newline>az login --claims '' @ encoded)"
    if "(\<exists>bs. urlsafe_b64decode (c # cs) = Inr bs) \<or> (\<forall>x \<in> set (c # cs). encodable x)"
  proof -
    from encode_claims_returns[OF that] obtain y where "encode_claims (c # cs) = Inr y"
      by blast
    then show ?thesis
      by (simp only: generate_login_command_claims sum.case) simp
  qed
  then show ?thesis
    using generate_login_command_claims[of scopes c cs]
      generate_login_command_scopes[of claims s ss]
      generate_login_command_bare[of claims scopes]
    by blast
qed

text \<open>
  The claims \<^verbatim>\<open>abc\<close> with scopes, the scopes \<^verbatim>\<open>s1\<close> and \<^verbatim>\<open>s2\<close> alone, and
  neither.
\<close>

theorem generate_login_command_branches_witness:
  "generate_login_command (Some [lit ''s1'', lit ''s2'']) (Some (lit ''abc''))
     = Inr (lit ''az logout\<newline>az login --claims YWJj'')
   \<and> generate_login_command (Some [lit ''s1'', lit ''s2'']) None
     = Inr (lit ''az login --scope s1 s2'')
   \<and> generate_login_command None (Some []) = Inr (lit ''az login'')"
proof -
  have e: "encode_claims (lit ''abc'') = Inr (lit ''YWJj'')"
    by (simp add: codec_eval)
  have h: "\<forall>x \<in> set (lit ''abc''). encodable x"
    by (simp add: encodable_def)
  note a = generate_login_command_branches[where c = 97 and cs = "lit ''bc''"
      and scopes = "Some [lit ''s1'', lit ''s2'']" and claims = None
      and s = "lit ''s1''" and ss = "[lit ''s2'']"]
  note b = generate_login_command_branches[where c = 97 and cs = "lit ''bc''"
      and scopes = None and claims = "Some []"
      and s = "lit ''s1''" and ss = "[lit ''s2'']"]
  have 1: "generate_login_command (Some [lit ''s1'', lit ''s2'']) (Some (lit ''abc''))
     = Inr (lit ''az logout\<newline>az login --claims YWJj'')"
    using a e h by simp
  have 2: "generate_login_command (Some [lit ''s1'', lit ''s2'']) None
     = Inr (lit ''az login --scope s1 s2'')"
    using a by simp
  have 3: "generate_login_command None (Some []) = Inr (lit ''az login'')"
    using b by simp
  from 1 2 3 show ?thesis by simp
qed

text \<open>
  C4 as the specification words it, for every non-empty claims argument, fails on the
  claims of the one code point U+D800: no command is returned, the
  \<open>UnicodeEncodeError\<close> of \<open>encode_claims\<close> is raised.
\<close>

theorem generate_login_command_surrogate:
  "generate_login_command None (Some [0xD800]) = Inl UnicodeEncodeError"
  by (simp add: codec_eval)

subsection \<open>Claims challenge\<close>

lemma padding_needed_mod: "padding_needed s = (4 - length s mod 4) mod 4"
proof -
  define r where "r = length s mod 4"
  have r: "r < 4" by (simp add: r_def)
  have "(- int (length s)) mod 4 = (- (int (length s) mod 4)) mod 4"
    by (simp add: mod_minus_eq)
  also have "int (length s) mod 4 = int r"
    by (simp add: r_def zmod_int)
  finally have p: "padding_needed s = nat ((- int r) mod 4)"
    by (simp add: padding_needed_def)
  from r consider "r = 0" | "r = 1" | "r = 2" | "r = 3" by linarith
  then have "nat ((- int r) mod 4) = (4 - r) mod 4"
    by cases simp_all
  with p show ?thesis by (simp add: r_def)
qed

lemma padding_needed_less: "padding_needed s < 4"
  by (simp add: padding_needed_mod)

lemma padding_needed_next: "length s + padding_needed s = (length s + 3) div 4 * 4"
proof -
  define q r where "q = length s div 4" and "r = length s mod 4"
  have n: "length s = q * 4 + r" by (simp add: q_def r_def)
  have r: "r < 4" by (simp add: r_def)
  have p: "padding_needed s = (4 - r) mod 4"
    by (simp add: padding_needed_mod r_def)
  from r consider "r = 0" | "r = 1" | "r = 2" | "r = 3" by linarith
  then show ?thesis
    unfolding p n by cases simp_all
qed

lemma padding_needed_zero: "padding_needed s = 0 \<longleftrightarrow> length s mod 4 = 0"
proof -
  define r where "r = length s mod 4"
  have r: "r < 4" by (simp add: r_def)
  from r consider "r = 0" | "r = 1" | "r = 2" | "r = 3" by linarith
  then have "(4 - r) mod 4 = 0 \<longleftrightarrow> r = 0" by cases simp_all
  then show ?thesis by (simp add: padding_needed_mod r_def)
qed

text \<open>
  C10, as the code has it. When the extractor gives \<^verbatim>\<open>None\<close> for the header of the
  response (no challenge, several challenges, or one without \<^verbatim>\<open>claims\<close>),
  \<open>handle_response_401_track1\<close> returns: its result is the fixed sentence followed by
  the login message for no claims. Neither \<^verbatim>\<open>--claims\<close> nor \<^verbatim>\<open>az logout\<close> occurs
  in it. Outside the cloud console the message shows the bare command \<^verbatim>\<open>az login\<close>
  on a line of its own after \<^verbatim>\<open>run:\<close>; in the cloud console it asks to refresh the
  portal and holds no login command.
\<close>

theorem handle_response_401_track1_no_claims:
  assumes "extract_claims parse_challenges (headers (lit ''WWW-Authenticate'')) = Inr None"
  shows "(case handle_response_401_track1 parse_challenges in_cloud_console headers of
            Inl e \<Rightarrow> False
          | Inr recommendation \<Rightarrow>
              recommendation =
                lit ''The access token has expired or been revoked by Continuous Access Evaluation. ''
                @ lit ''Silent re-authentication will be attempted in the future.\<newline>''
                @ lit ''To re-authenticate, please ''
                @ (if in_cloud_console then lit ''refresh Azure Portal.''
                   else lit ''run:\<newline>az login'')
                @ lit ''\<newline>\<newline>If the problem persists, please contact your tenant administrator.''
              \<and> \<not> contains recommendation (lit ''--claims'')
              \<and> \<not> contains recommendation (lit ''az logout'')
              \<and> (in_cloud_console \<or> contains recommendation (lit ''run:\<newline>az login\<newline>''))
              \<and> (in_cloud_console \<longrightarrow> \<not> contains recommendation (lit ''az login'')))"
proof (cases in_cloud_console)
  case True
  then show ?thesis
    using assms
    by (simp add: handle_response_401_track1_def generate_login_message_def)
next
  case False
  then show ?thesis
    using assms
    by (simp add: handle_response_401_track1_def generate_login_message_def)
qed

text \<open>
  A response whose \<^verbatim>\<open>WWW-Authenticate\<close> header is the empty string, outside the
  cloud console; the parser finds no challenge in a string and raises \<open>TypeError\<close> on
  \<^verbatim>\<open>None\<close>.
\<close>

theorem handle_response_401_track1_no_claims_witness:
  "handle_response_401_track1
     (\<lambda>h. case h of None \<Rightarrow> Inl TypeError | Some s \<Rightarrow> Inr [])
     False [lit ''WWW-Authenticate'' \<mapsto> []] =
     Inr (lit ''The access token has expired or been revoked by Continuous Access Evaluation. Silent re-authentication will be attempted in the future.\<newline>To re-authenticate, please run:\<newline>az login\<newline>\<newline>If the problem persists, please contact your tenant administrator.'')"
proof -
  define p :: challenge_parser where
    "p = (\<lambda>h. case h of None \<Rightarrow> Inl TypeError | Some s \<Rightarrow> Inr [])"
  define hs :: "str \<rightharpoonup> str" where "hs = [lit ''WWW-Authenticate'' \<mapsto> []]"
  have h: "extract_claims p (hs (lit ''WWW-Authenticate'')) = Inr None"
    by (simp add: extract_claims_def p_def hs_def)
  note t = handle_response_401_track1_no_claims[where parse_challenges = p
      and headers = hs and in_cloud_console = False, OF h]
  obtain m where m: "handle_response_401_track1 p False hs = Inr m"
    using t by (cases "handle_response_401_track1 p False hs") simp_all
  from t have "m = lit ''The access token has expired or been revoked by Continuous Access Evaluation. Silent re-authentication will be attempted in the future.\<newline>To re-authenticate, please run:\<newline>az login\<newline>\<newline>If the problem persists, please contact your tenant administrator.''"
    unfolding m by simp
  with m show ?thesis unfolding p_def hs_def by simp
qed

text \<open>
  C10 as the specification words it, that the login command embedded in the
  recommendation is the bare \<^verbatim>\<open>az login\<close>, fails in the cloud console: for the same
  response the recommendation asks to refresh the portal, and \<^verbatim>\<open>az login\<close> does not
  occur in it.
\<close>

theorem handle_response_401_track1_cloud_console:
  "handle_response_401_track1
     (\<lambda>h. case h of None \<Rightarrow> Inl TypeError | Some s \<Rightarrow> Inr [])
     True [lit ''WWW-Authenticate'' \<mapsto> []] =
     Inr (lit ''The access token has expired or been revoked by Continuous Access Evaluation. Silent re-authentication will be attempted in the future.\<newline>To re-authenticate, please refresh Azure Portal.\<newline>\<newline>If the problem persists, please contact your tenant administrator.'')
   \<and> \<not> contains (lit ''The access token has expired or been revoked by Continuous Access Evaluation. Silent re-authentication will be attempted in the future.\<newline>To re-authenticate, please refresh Azure Portal.\<newline>\<newline>If the problem persists, please contact your tenant administrator.'') (lit ''az login'')"
  by (simp add: handle_response_401_track1_def generate_login_message_def extract_claims_def)

lemma extract_claims_not_one:
  "parse_challenges header = Inr parsed \<Longrightarrow> length parsed \<noteq> 1 \<Longrightarrow>
   extract_claims parse_challenges header = Inr None"
proof (cases parsed)
  case Nil
  assume "parse_challenges header = Inr parsed"
  with Nil show ?thesis by (simp add: extract_claims_def)
next
  case (Cons c cs)
  assume p: "parse_challenges header = Inr parsed" and "length parsed \<noteq> 1"
  with Cons obtain d ds where "cs = d # ds" by (cases cs) simp_all
  with Cons p show ?thesis by (simp add: extract_claims_def)
qed

lemma extract_claims_no_claims:
  "parse_challenges header = Inr [c] \<Longrightarrow> map_of (parameters c) (lit ''claims'') = None \<Longrightarrow>
   extract_claims parse_challenges header = Inr None"
  by (simp add: extract_claims_def)

lemma extract_claims_padded:
  "parse_challenges header = Inr [c] \<Longrightarrow> map_of (parameters c) (lit ''claims'') = Some v \<Longrightarrow>
   extract_claims parse_challenges header = Inr (Some (v @ replicate (padding_needed v) 61))"
  by (simp add: extract_claims_def)


text \<open>
  C7. Whatever the header, when the parser gives the list \<open>parsed\<close> of challenges the
  extractor returns \<^verbatim>\<open>None\<close> unless \<open>parsed\<close> is one challenge with a \<^verbatim>\<open>claims\<close>
  parameter. Then it returns the value of the parameter followed by \<^verbatim>\<open>=\<close> signs,
  fewer than four of them, that bring its length to the next multiple of four; none
  is added when the length is a multiple of four already.
\<close>

theorem extract_claims_result:
  assumes "parse_challenges header = Inr parsed"
  shows "(length parsed \<noteq> 1 \<longrightarrow> extract_claims parse_challenges header = Inr None)
   \<and> (parsed = [c] \<and> map_of (parameters c) (lit ''claims'') = None
        \<longrightarrow> extract_claims parse_challenges header = Inr None)
   \<and> (parsed = [c] \<and> map_of (parameters c) (lit ''claims'') = Some v
        \<longrightarrow> extract_claims parse_challenges header
              = Inr (Some (v @ replicate (padding_needed v) 61))
            \<and> padding_needed v < 4
            \<and> length (v @ replicate (padding_needed v) 61) = (length v + 3) div 4 * 4
            \<and> (padding_needed v = 0 \<longleftrightarrow> length v mod 4 = 0))"
proof (intro conjI impI)
  assume "length parsed \<noteq> 1"
  with assms show "extract_claims parse_challenges header = Inr None"
    by (rule extract_claims_not_one)
next
  assume "parsed = [c] \<and> map_of (parameters c) (lit ''claims'') = None"
  with assms show "extract_claims parse_challenges header = Inr None"
    by (simp only: extract_claims_no_claims)
next
  assume "parsed = [c] \<and> map_of (parameters c) (lit ''claims'') = Some v"
  with assms show "extract_claims parse_challenges header
              = Inr (Some (v @ replicate (padding_needed v) 61))"
    by (simp only: extract_claims_padded)
next
  show "padding_needed v < 4" by (rule padding_needed_less)
next
  show "length (v @ replicate (padding_needed v) 61) = (length v + 3) div 4 * 4"
    by (simp only: length_append length_replicate padding_needed_next)
next
  show "padding_needed v = 0 \<longleftrightarrow> length v mod 4 = 0"
    by (rule padding_needed_zero)
qed

text \<open>One challenge with the claims \<^verbatim>\<open>abcde\<close>: three \<^verbatim>\<open>=\<close> are added.\<close>

theorem extract_claims_result_witness:
  "extract_claims
     (\<lambda>h. Inr [\<lparr>scheme = lit ''Bearer'', parameters = [(lit ''claims'', lit ''abcde'')]\<rparr>])
     (Some (lit ''Bearer claims=abcde''))
   = Inr (Some (lit ''abcde===''))"
proof -
  define c where "c = \<lparr>scheme = lit ''Bearer'', parameters = [(lit ''claims'', lit ''abcde'')]\<rparr>"
  define p :: challenge_parser where "p = (\<lambda>h. Inr [c])"
  define hd where "hd = Some (lit ''Bearer claims=abcde'')"
  have h: "p hd = Inr [c]" by (simp add: p_def)
  have m: "[c] = [c] \<and> map_of (parameters c) (lit ''claims'') = Some (lit ''abcde'')"
    by (simp add: c_def)
  have n: "padding_needed (lit ''abcde'') = 3"
    by (simp add: padding_needed_def)
  from extract_claims_result[where parse_challenges = p and header = hd and parsed = "[c]"
      and c = c and v = "lit ''abcde''", OF h] m
  have "extract_claims p hd
          = Inr (Some (lit ''abcde'' @ replicate (padding_needed (lit ''abcde'')) 61))"
    by (simp only: simp_thms)
  then have "extract_claims p hd = Inr (Some (lit ''abcde==='')) "
    unfolding n by (simp add: numeral_3_eq_3)
  then show ?thesis unfolding p_def c_def hd_def .
qed

subsection \<open>Error handler and result classifier\<close>

lemma generate_login_command_returns:
  assumes "\<forall>c. claims = Some c \<longrightarrow>
             (\<exists>bs. urlsafe_b64decode c = Inr bs) \<or> (\<forall>x \<in> set c. encodable x)"
  shows "\<exists>cmd. generate_login_command scopes claims = Inr cmd"
proof (cases claims)
  case None
  show ?thesis
  proof (cases scopes)
    case None
    with \<open>claims = None\<close> show ?thesis by simp
  next
    case (Some ss)
    with \<open>claims = None\<close> show ?thesis by (cases ss) simp_all
  qed
next
  case (Some c)
  show ?thesis
  proof (cases c)
    case Nil
    show ?thesis
    proof (cases scopes)
      case None
      with Nil \<open>claims = Some c\<close> show ?thesis by simp
    next
      case (Some ss)
      with Nil \<open>claims = Some c\<close> show ?thesis by (cases ss) simp_all
    qed
  next
    case (Cons x xs)
    from assms Some have "(\<exists>bs. urlsafe_b64decode c = Inr bs) \<or> (\<forall>x \<in> set c. encodable x)"
      by simp
    from encode_claims_returns[OF this] obtain y where "encode_claims c = Inr y" by blast
    with Some Cons show ?thesis
      by (simp only: generate_login_command_claims sum.case) simp
  qed
qed

lemma generate_login_message_returns:
  assumes "\<forall>c. claims = Some c \<longrightarrow>
             (\<exists>bs. urlsafe_b64decode c = Inr bs) \<or> (\<forall>x \<in> set c. encodable x)"
  shows "\<exists>m. generate_login_message in_cloud_console scopes claims = Inr m"
proof -
  from generate_login_command_returns[OF assms] obtain cmd
    where "generate_login_command scopes claims = Inr cmd" by blast
  then show ?thesis by (simp add: generate_login_message_def Let_def)
qed

lemma aad_error_handler_cases:
  "aad_error_handler in_cloud_console error scopes claims =
     (case generate_login_message in_cloud_console scopes claims of
        Inl e \<Rightarrow> Inl e
      | Inr m \<Rightarrow> Inl (AuthenticationError (dict_get error (lit ''error_description'')) m))"
  by (simp only: aad_error_handler_def Let_def)

lemma aad_error_handler_raises: "aad_error_handler in_cloud_console error scopes claims \<noteq> Inr u"
  by (simp add: aad_error_handler_cases split: sum.splits)

lemma check_result_empty:
  "result = None \<or> result = Some [] \<Longrightarrow>
   check_result in_cloud_console result scopes claims =
     Inl (AuthenticationError (PStr (lit ''Can't find token from MSAL cache.''))
            (lit ''To re-authenticate, please run:\<newline>az login''))"
  by (auto simp add: check_result_def Let_def)

lemma check_result_error:
  assumes "r \<noteq> []" and "dict_contains r (lit ''error'')"
  shows "check_result in_cloud_console (Some r) scopes claims =
     (case generate_login_message in_cloud_console scopes claims of
        Inl e \<Rightarrow> Inl e
      | Inr m \<Rightarrow> Inl (AuthenticationError (dict_get r (lit ''error_description'')) m))"
proof -
  from assms(1) obtain kv kvs where r: "r = kv # kvs" by (cases r) simp_all
  show ?thesis
    using assms(2) unfolding r check_result_def Let_def aad_error_handler_cases
    by (simp split: sum.splits)
qed

lemma check_result_no_error:
  assumes "r \<noteq> []" and "\<not> dict_contains r (lit ''error'')"
  shows "check_result in_cloud_console (Some r) scopes claims =
     (if dict_contains r (lit ''id_token_claims'')
      then id_token_identity (dict_get r (lit ''id_token_claims''))
      else Inr PNone)"
proof -
  from assms(1) obtain kv kvs where r: "r = kv # kvs" by (cases r) simp_all
  show ?thesis
    using assms(2) unfolding r check_result_def Let_def by simp
qed

lemma id_token_identity_error:
  "id_token_identity idt = Inl e \<Longrightarrow> \<not> is_AuthenticationError e"
  by (auto simp: id_token_identity_def dict_item_def Let_def
      split: pyval.splits sum.splits if_splits option.splits)

lemmas result_eval = check_result_def aad_error_handler_def generate_login_message_def
  id_token_identity_def dict_contains_def dict_get_def dict_item_def

text \<open>
  C2, as the code has it. An absent or empty result raises \<open>AuthenticationError\<close>
  directly. A result with an \<^verbatim>\<open>error\<close> key goes to \<open>aad_error_handler\<close>, which never
  returns: the login message is composed first, and its error, if any, is what is
  raised; otherwise \<open>AuthenticationError\<close> is raised, with the value of
  \<^verbatim>\<open>error_description\<close> (\<^verbatim>\<open>None\<close> when the key is missing) as its message. The login
  message is composed whenever the claims of the keyword arguments are absent, decode
  as base64url or hold no lone surrogate. A non-empty result without an \<^verbatim>\<open>error\<close> key
  raises no \<open>AuthenticationError\<close>.
\<close>

theorem check_result_authentication_error:
  "(result = None \<or> result = Some [] \<longrightarrow>
      check_result in_cloud_console result scopes claims =
        Inl (AuthenticationError (PStr (lit ''Can't find token from MSAL cache.''))
               (lit ''To re-authenticate, please run:\<newline>az login'')))
   \<and> (r \<noteq> [] \<and> dict_contains r (lit ''error'') \<longrightarrow>
        check_result in_cloud_console (Some r) scopes claims =
          (case generate_login_message in_cloud_console scopes claims of
             Inl e \<Rightarrow> Inl e
           | Inr m \<Rightarrow> Inl (AuthenticationError (dict_get r (lit ''error_description'')) m))
        \<and> (\<forall>u. aad_error_handler in_cloud_console r scopes claims \<noteq> Inr u))
   \<and> (r \<noteq> [] \<and> dict_contains r (lit ''error'')
        \<and> (\<forall>c. claims = Some c \<longrightarrow>
              (\<exists>bs. urlsafe_b64decode c = Inr bs) \<or> (\<forall>x \<in> set c. encodable x)) \<longrightarrow>
        (\<exists>m. generate_login_message in_cloud_console scopes claims = Inr m
             \<and> check_result in_cloud_console (Some r) scopes claims =
                 Inl (AuthenticationError (dict_get r (lit ''error_description'')) m)))
   \<and> (r \<noteq> [] \<and> \<not> dict_contains r (lit ''error'') \<longrightarrow>
        (\<forall>e. check_result in_cloud_console (Some r) scopes claims = Inl e
             \<longrightarrow> \<not> is_AuthenticationError e))"
proof (intro conjI impI allI)
  assume "result = None \<or> result = Some []"
  then show "check_result in_cloud_console result scopes claims =
        Inl (AuthenticationError (PStr (lit ''Can't find token from MSAL cache.''))
               (lit ''To re-authenticate, please run:\<newline>az login''))"
    by (rule check_result_empty)
next
  assume a: "r \<noteq> [] \<and> dict_contains r (lit ''error'')"
  show "check_result in_cloud_console (Some r) scopes claims =
          (case generate_login_message in_cloud_console scopes claims of
             Inl e \<Rightarrow> Inl e
           | Inr m \<Rightarrow> Inl (AuthenticationError (dict_get r (lit ''error_description'')) m))"
    by (rule check_result_error[OF conjunct1[OF a] conjunct2[OF a]])
next
  fix u
  show "aad_error_handler in_cloud_console r scopes claims \<noteq> Inr u"
    by (rule aad_error_handler_raises)
next
  assume a: "r \<noteq> [] \<and> dict_contains r (lit ''error'')
        \<and> (\<forall>c. claims = Some c \<longrightarrow>
              (\<exists>bs. urlsafe_b64decode c = Inr bs) \<or> (\<forall>x \<in> set c. encodable x))"
  then obtain m where m: "generate_login_message in_cloud_console scopes claims = Inr m"
    using generate_login_message_returns[of claims in_cloud_console scopes] by blast
  have "check_result in_cloud_console (Some r) scopes claims =
          (case generate_login_message in_cloud_console scopes claims of
             Inl e \<Rightarrow> Inl e
           | Inr m \<Rightarrow> Inl (AuthenticationError (dict_get r (lit ''error_description'')) m))"
    by (rule check_result_error[OF conjunct1[OF a] conjunct1[OF conjunct2[OF a]]])
  with m show "\<exists>m. generate_login_message in_cloud_console scopes claims = Inr m
             \<and> check_result in_cloud_console (Some r) scopes claims =
                 Inl (AuthenticationError (dict_get r (lit ''error_description'')) m)"
    by (simp only: sum.case) blast
next
  fix e
  assume a: "r \<noteq> [] \<and> \<not> dict_contains r (lit ''error'')"
    and e: "check_result in_cloud_console (Some r) scopes claims = Inl e"
  have "check_result in_cloud_console (Some r) scopes claims =
     (if dict_contains r (lit ''id_token_claims'')
      then id_token_identity (dict_get r (lit ''id_token_claims''))
      else Inr PNone)"
    by (rule check_result_no_error[OF conjunct1[OF a] conjunct2[OF a]])
  with e have "id_token_identity (dict_get r (lit ''id_token_claims'')) = Inl e"
    by (simp only: split: if_splits) simp
  then show "\<not> is_AuthenticationError e" by (rule id_token_identity_error)
qed


text \<open>The empty result, and a result with \<^verbatim>\<open>error\<close> and \<^verbatim>\<open>error_description\<close>.\<close>

theorem check_result_authentication_error_witness:
  "check_result False (Some []) None None =
     Inl (AuthenticationError (PStr (lit ''Can't find token from MSAL cache.''))
            (lit ''To re-authenticate, please run:\<newline>az login''))
   \<and> check_result False
        (Some [(lit ''error'', PStr (lit ''x'')), (lit ''error_description'', PStr (lit ''bad''))])
        None None =
     Inl (AuthenticationError (PStr (lit ''bad''))
            (lit ''To re-authenticate, please run:\<newline>az login\<newline>\<newline>If the problem persists, please contact your tenant administrator.''))"
proof -
  define r where
    "r = [(lit ''error'', PStr (lit ''x'')), (lit ''error_description'', PStr (lit ''bad''))]"
  note t = check_result_authentication_error[where result = "Some []" and r = r
      and in_cloud_console = False and scopes = None and claims = None]
  have r: "r \<noteq> [] \<and> dict_contains r (lit ''error'')"
    by (simp add: r_def dict_contains_def)
  have m: "generate_login_message False None None =
     Inr (lit ''To re-authenticate, please run:\<newline>az login\<newline>\<newline>If the problem persists, please contact your tenant administrator.'')"
    by (simp add: generate_login_message_def)
  have d: "dict_get r (lit ''error_description'') = PStr (lit ''bad'')"
    by (simp add: r_def dict_get_def)
  from t have 1: "check_result False (Some []) None None =
     Inl (AuthenticationError (PStr (lit ''Can't find token from MSAL cache.''))
            (lit ''To re-authenticate, please run:\<newline>az login''))"
    by simp
  from t r have "check_result False (Some r) None None =
          (case generate_login_message False None None of
             Inl e \<Rightarrow> Inl e
           | Inr m \<Rightarrow> Inl (AuthenticationError (dict_get r (lit ''error_description'')) m))"
    by blast
  then have 2: "check_result False (Some r) None None =
     Inl (AuthenticationError (PStr (lit ''bad''))
            (lit ''To re-authenticate, please run:\<newline>az login\<newline>\<newline>If the problem persists, please contact your tenant administrator.''))"
    unfolding m d by simp
  from 1 2 show ?thesis unfolding r_def by simp
qed

text \<open>
  C2 as the specification words it, that a result with an \<^verbatim>\<open>error\<close> key always
  raises \<open>AuthenticationError\<close>, fails when the keyword argument \<^verbatim>\<open>claims\<close> is the
  string of the one code point U+D800: the \<open>UnicodeEncodeError\<close> of \<open>encode_claims\<close>
  is raised while the recommendation is composed.
\<close>

theorem check_result_surrogate_claims:
  "check_result False (Some [(lit ''error'', PStr (lit ''x''))]) None (Some [0xD800])
     = Inl UnicodeEncodeError"
  by (simp add: result_eval codec_eval)

lemma id_token_identity_dict:
  "id_token_identity (PDict idt) =
     (if truthy (dict_get idt (lit ''preferred_username''))
      then (case map_of idt (lit ''tid'') of
              None \<Rightarrow> Inl (KeyError (lit ''tid''))
            | Some tid \<Rightarrow>
                Inr (PDict [(lit ''username'', dict_get idt (lit ''preferred_username'')),
                            (lit ''tenantId'', tid)]))
      else (case map_of idt (lit ''upn'') of
              None \<Rightarrow> Inl (KeyError (lit ''upn''))
            | Some upn \<Rightarrow>
                (case map_of idt (lit ''tid'') of
                   None \<Rightarrow> Inl (KeyError (lit ''tid''))
                 | Some tid \<Rightarrow>
                     Inr (PDict [(lit ''username'', upn), (lit ''tenantId'', tid)]))))"
  by (simp add: id_token_identity_def dict_item_def Let_def split: option.splits)


text \<open>
  C3, as the code has it. Take a non-empty result without an \<^verbatim>\<open>error\<close> key. When its
  \<^verbatim>\<open>id_token_claims\<close> is a dictionary, the user name is the value of
  \<^verbatim>\<open>preferred_username\<close> if that value is true (a non-empty string, for one);
  otherwise, the key being absent or its value false, it is the value of \<^verbatim>\<open>upn\<close>,
  and \<open>KeyError\<close> is raised when \<^verbatim>\<open>upn\<close> is absent. The tenant is the value of
  \<^verbatim>\<open>tid\<close>, and \<open>KeyError\<close> is raised when it is absent. The result is the
  dictionary of the two. Without \<^verbatim>\<open>id_token_claims\<close> the result is \<^verbatim>\<open>None\<close>.
\<close>

theorem check_result_identity:
  assumes "r \<noteq> []" and "\<not> dict_contains r (lit ''error'')"
  shows "(map_of r (lit ''id_token_claims'') = Some (PDict idt) \<longrightarrow>
      check_result in_cloud_console (Some r) scopes claims =
        (if truthy (dict_get idt (lit ''preferred_username''))
         then (case map_of idt (lit ''tid'') of
                 None \<Rightarrow> Inl (KeyError (lit ''tid''))
               | Some tid \<Rightarrow>
                   Inr (PDict [(lit ''username'', dict_get idt (lit ''preferred_username'')),
                               (lit ''tenantId'', tid)]))
         else (case map_of idt (lit ''upn'') of
                 None \<Rightarrow> Inl (KeyError (lit ''upn''))
               | Some upn \<Rightarrow>
                   (case map_of idt (lit ''tid'') of
                      None \<Rightarrow> Inl (KeyError (lit ''tid''))
                    | Some tid \<Rightarrow>
                        Inr (PDict [(lit ''username'', upn), (lit ''tenantId'', tid)])))))
   \<and> (map_of idt (lit ''preferred_username'') = None
        \<longrightarrow> \<not> truthy (dict_get idt (lit ''preferred_username'')))
   \<and> (map_of r (lit ''id_token_claims'') = None \<longrightarrow>
        check_result in_cloud_console (Some r) scopes claims = Inr PNone)"
proof (intro conjI impI)
  assume a: "map_of r (lit ''id_token_claims'') = Some (PDict idt)"
  have c: "dict_contains r (lit ''id_token_claims'')"
    unfolding dict_contains_def using a by simp
  have g: "dict_get r (lit ''id_token_claims'') = PDict idt"
    unfolding dict_get_def using a by simp
  have "check_result in_cloud_console (Some r) scopes claims
               = id_token_identity (PDict idt)"
    unfolding check_result_no_error[OF assms] g using c by (rule if_P)
  also note id_token_identity_dict
  finally show "check_result in_cloud_console (Some r) scopes claims =
        (if truthy (dict_get idt (lit ''preferred_username''))
         then (case map_of idt (lit ''tid'') of
                 None \<Rightarrow> Inl (KeyError (lit ''tid''))
               | Some tid \<Rightarrow>
                   Inr (PDict [(lit ''username'', dict_get idt (lit ''preferred_username'')),
                               (lit ''tenantId'', tid)]))
         else (case map_of idt (lit ''upn'') of
                 None \<Rightarrow> Inl (KeyError (lit ''upn''))
               | Some upn \<Rightarrow>
                   (case map_of idt (lit ''tid'') of
                      None \<Rightarrow> Inl (KeyError (lit ''tid''))
                    | Some tid \<Rightarrow>
                        Inr (PDict [(lit ''username'', upn), (lit ''tenantId'', tid)]))))" .
next
  assume a: "map_of idt (lit ''preferred_username'') = None"
  show "\<not> truthy (dict_get idt (lit ''preferred_username''))"
    unfolding dict_get_def using a by simp
next
  assume a: "map_of r (lit ''id_token_claims'') = None"
  have c: "\<not> dict_contains r (lit ''id_token_claims'')"
    unfolding dict_contains_def using a by simp
  show "check_result in_cloud_console (Some r) scopes claims = Inr PNone"
    unfolding check_result_no_error[OF assms] using c by (rule if_not_P)
qed


text \<open>The identity token of ADFS: \<^verbatim>\<open>upn\<close> and \<^verbatim>\<open>tid\<close>.\<close>

theorem check_result_identity_witness:
  "check_result False
     (Some [(lit ''id_token_claims'',
             PDict [(lit ''upn'', PStr (lit ''u@x.com'')), (lit ''tid'', PStr (lit ''t1''))])])
     None None
   = Inr (PDict [(lit ''username'', PStr (lit ''u@x.com'')),
                 (lit ''tenantId'', PStr (lit ''t1''))])"
proof -
  define idt where
    "idt = [(lit ''upn'', PStr (lit ''u@x.com'')), (lit ''tid'', PStr (lit ''t1''))]"
  define r where "r = [(lit ''id_token_claims'', PDict idt)]"
  have 1: "r \<noteq> []" by (simp add: r_def)
  have 2: "\<not> dict_contains r (lit ''error'')" by (simp add: r_def dict_contains_def)
  have 3: "map_of r (lit ''id_token_claims'') = Some (PDict idt)" by (simp add: r_def)
  have 4: "\<not> truthy (dict_get idt (lit ''preferred_username''))"
    by (simp add: idt_def dict_get_def)
  have 5: "map_of idt (lit ''upn'') = Some (PStr (lit ''u@x.com''))"
    by (simp add: idt_def)
  have 6: "map_of idt (lit ''tid'') = Some (PStr (lit ''t1''))"
    by (simp add: idt_def)
  from check_result_identity[OF 1 2, where idt = idt and in_cloud_console = False
      and scopes = None and claims = None] 3
  have "check_result False (Some r) None None =
        (if truthy (dict_get idt (lit ''preferred_username''))
         then (case map_of idt (lit ''tid'') of
                 None \<Rightarrow> Inl (KeyError (lit ''tid''))
               | Some tid \<Rightarrow>
                   Inr (PDict [(lit ''username'', dict_get idt (lit ''preferred_username'')),
                               (lit ''tenantId'', tid)]))
         else (case map_of idt (lit ''upn'') of
                 None \<Rightarrow> Inl (KeyError (lit ''upn''))
               | Some upn \<Rightarrow>
                   (case map_of idt (lit ''tid'') of
                      None \<Rightarrow> Inl (KeyError (lit ''tid''))
                    | Some tid \<Rightarrow>
                        Inr (PDict [(lit ''username'', upn), (lit ''tenantId'', tid)]))))"
    by blast
  then have "check_result False (Some r) None None =
     Inr (PDict [(lit ''username'', PStr (lit ''u@x.com'')),
                 (lit ''tenantId'', PStr (lit ''t1''))])"
    unfolding 5 6 using 4 by simp
  then show ?thesis unfolding r_def idt_def .
qed

text \<open>
  C3 as the specification words it, that the value of a present
  \<^verbatim>\<open>preferred_username\<close> is used, fails when that value is the empty string: the
  key is present, and the user name returned is the value of \<^verbatim>\<open>upn\<close>.
\<close>

theorem check_result_empty_preferred_username:
  "map_of [(lit ''preferred_username'', PStr []), (lit ''upn'', PStr (lit ''u@x.com'')),
           (lit ''tid'', PStr (lit ''t1''))] (lit ''preferred_username'') = Some (PStr [])
   \<and> check_result False
        (Some [(lit ''id_token_claims'',
                PDict [(lit ''preferred_username'', PStr []),
                       (lit ''upn'', PStr (lit ''u@x.com'')),
                       (lit ''tid'', PStr (lit ''t1''))])])
        None None
     = Inr (PDict [(lit ''username'', PStr (lit ''u@x.com'')),
                   (lit ''tenantId'', PStr (lit ''t1''))])"
  by (simp add: result_eval)

subsection \<open>Access token\<close>

lemma str_split_no_sep: "sep \<notin> set s \<Longrightarrow> str_split sep s = [s]"
  by (induction s) auto

lemma str_split_append_sep:
  "sep \<notin> set a \<Longrightarrow> str_split sep (a @ sep # b) = a # str_split sep b"
  by (induction a) auto

lemma str_split_not_Nil: "str_split sep s \<noteq> []"
  by (induction s) (auto split: list.splits)

lemma str_split_length: "length (str_split sep s) = Suc (count_list s sep)"
proof (induction s)
  case Nil
  then show ?case by simp
next
  case (Cons c cs)
  then show ?case
    using str_split_not_Nil[of sep cs] by (cases "str_split sep cs") auto
qed

lemma str_split_fewer_than_two: "length (str_split sep s) < 2 \<longleftrightarrow> sep \<notin> set s"
  by (simp add: str_split_length count_list_0_iff)

lemma decode_part_error:
  "decode_part raw = Inl e \<Longrightarrow> e = ValueError \<or> e = BinasciiError \<or> e = UnicodeDecodeError"
  by (auto simp: decode_part_def Let_def split: sum.splits
      dest: urlsafe_b64decode_error bytes_decode_error)

lemma decode_access_token_no_dot:
  "46 \<notin> set access_token \<Longrightarrow> decode_access_token json_loads access_token = Inl IndexError"
  by (simp add: decode_access_token_def str_split_no_sep)

lemma str_split_second:
  assumes "46 \<notin> set header" and "46 \<notin> set claim_part" and "rest = [] \<or> (\<exists>r. rest = 46 # r)"
  shows "\<exists>more. str_split 46 (header @ 46 # claim_part @ rest) = header # claim_part # more"
proof -
  have h: "str_split 46 (header @ 46 # claim_part @ rest) = header # str_split 46 (claim_part @ rest)"
    using assms(1) by (rule str_split_append_sep)
  from assms(3) show ?thesis
  proof
    assume "rest = []"
    then show ?thesis using h assms(2) by (simp add: str_split_no_sep)
  next
    assume "\<exists>r. rest = 46 # r"
    then obtain r where "rest = 46 # r" ..
    then show ?thesis using h str_split_append_sep[OF assms(2), of r] by simp
  qed
qed

lemma decode_access_token_second:
  assumes "46 \<notin> set header" and "46 \<notin> set claim_part" and "rest = [] \<or> (\<exists>r. rest = 46 # r)"
  shows "decode_access_token json_loads (header @ 46 # claim_part @ rest) =
     (case decode_part claim_part of
        Inl e \<Rightarrow> Inl e
      | Inr decoded_str \<Rightarrow>
          (case json_loads decoded_str of
             None \<Rightarrow> Inl JSONDecodeError
           | Some v \<Rightarrow> Inr v))"
proof -
  from str_split_second[OF assms] obtain more
    where "str_split 46 (header @ 46 # claim_part @ rest) = header # claim_part # more" ..
  then show ?thesis by (simp add: decode_access_token_def)
qed

lemma decode_access_token_error:
  assumes "decode_access_token json_loads access_token = Inl e"
  shows "\<not> is_AuthenticationError e"
proof -
  have "e = IndexError \<or> e = JSONDecodeError \<or> e = ValueError \<or> e = BinasciiError
        \<or> e = UnicodeDecodeError"
    using assms
    by (auto simp: decode_access_token_def split: list.splits sum.splits option.splits
        dest: decode_part_error)
  then show ?thesis by auto
qed


text \<open>
  C8. The token is split at the dots (code 46). A token with fewer than two parts,
  which is one without a dot, raises \<open>IndexError\<close>. Otherwise the second part is
  decoded by \<open>decode_part\<close> (padding restored, base64url, UTF-8), whose error is
  raised if it has one, and the text is parsed by \<^verbatim>\<open>json.loads\<close>: its value is
  returned, and \<open>JSONDecodeError\<close> is raised where the text is not JSON. No failure
  of \<open>decode_access_token\<close> is an \<open>AuthenticationError\<close>.
\<close>

theorem decode_access_token_result:
  "(length (str_split 46 access_token) < 2 \<longleftrightarrow> 46 \<notin> set access_token)
   \<and> (46 \<notin> set access_token \<longrightarrow>
        decode_access_token json_loads access_token = Inl IndexError)
   \<and> (46 \<notin> set header \<and> 46 \<notin> set claim_part \<and> (rest = [] \<or> (\<exists>r. rest = 46 # r)) \<longrightarrow>
        decode_access_token json_loads (header @ 46 # claim_part @ rest) =
          (case decode_part claim_part of
             Inl e \<Rightarrow> Inl e
           | Inr decoded_str \<Rightarrow>
               (case json_loads decoded_str of
                  None \<Rightarrow> Inl JSONDecodeError
                | Some v \<Rightarrow> Inr v)))
   \<and> (\<forall>e. decode_access_token json_loads access_token = Inl e
          \<longrightarrow> \<not> is_AuthenticationError e)"
proof (intro conjI impI allI)
  show "length (str_split 46 access_token) < 2 \<longleftrightarrow> 46 \<notin> set access_token"
    by (rule str_split_fewer_than_two)
next
  assume "46 \<notin> set access_token"
  then show "decode_access_token json_loads access_token = Inl IndexError"
    by (rule decode_access_token_no_dot)
next
  assume a: "46 \<notin> set header \<and> 46 \<notin> set claim_part \<and> (rest = [] \<or> (\<exists>r. rest = 46 # r))"
  show "decode_access_token json_loads (header @ 46 # claim_part @ rest) =
          (case decode_part claim_part of
             Inl e \<Rightarrow> Inl e
           | Inr decoded_str \<Rightarrow>
               (case json_loads decoded_str of
                  None \<Rightarrow> Inl JSONDecodeError
                | Some v \<Rightarrow> Inr v))"
    by (rule decode_access_token_second[OF conjunct1[OF a] conjunct1[OF conjunct2[OF a]]
          conjunct2[OF conjunct2[OF a]]])
next
  fix e
  assume "decode_access_token json_loads access_token = Inl e"
  then show "\<not> is_AuthenticationError e" by (rule decode_access_token_error)
qed

text \<open>
  The part \<^verbatim>\<open>e30\<close> is the encoding of \<^verbatim>\<open>{}\<close>: a token of three parts that is
  parsed, a token of two parts whose body is refused by the parser, and a token without
  a dot.
\<close>

theorem decode_access_token_result_witness:
  "decode_access_token (\<lambda>s. if s = lit ''{}'' then Some (PDict []) else None)
     (lit ''h.e30.s'') = Inr (PDict [])
   \<and> decode_access_token (\<lambda>s. None) (lit ''h.e30'') = Inl JSONDecodeError
   \<and> decode_access_token (\<lambda>s. None) (lit ''he30'') = Inl IndexError"
proof -
  define j :: "str \<Rightarrow> pyval option" where
    "j = (\<lambda>s. if s = lit ''{}'' then Some (PDict []) else None)"
  define n :: "str \<Rightarrow> pyval option" where "n = (\<lambda>s. None)"
  have p: "padding_needed (lit ''e30'') = 1"
    by (simp add: padding_needed_def)
  have d: "decode_part (lit ''e30'') = Inr (lit ''{}'')"
    unfolding decode_part_def Let_def p by (simp add: codec_eval)
  have r: "\<exists>r. lit ''.s'' = 46 # r" by simp
  have a: "46 \<notin> set (lit ''h'') \<and> 46 \<notin> set (lit ''e30'')
           \<and> (lit ''.s'' = [] \<or> (\<exists>r. lit ''.s'' = 46 # r))"
    using r by simp
  have b: "46 \<notin> set (lit ''h'') \<and> 46 \<notin> set (lit ''e30'')
           \<and> (([] :: str) = [] \<or> (\<exists>r. ([] :: str) = 46 # r))"
    by simp
  have c: "46 \<notin> set (lit ''he30'')" by simp
  note t1 = decode_access_token_result[where json_loads = j and header = "lit ''h''"
      and claim_part = "lit ''e30''" and rest = "lit ''.s''"]
  note t2 = decode_access_token_result[where json_loads = n and header = "lit ''h''"
      and claim_part = "lit ''e30''" and rest = "[]"]
  note t3 = decode_access_token_result[where json_loads = n and access_token = "lit ''he30''"]
  have "decode_access_token j (lit ''h'' @ 46 # lit ''e30'' @ lit ''.s'') =
          (case decode_part (lit ''e30'') of
             Inl e \<Rightarrow> Inl e
           | Inr decoded_str \<Rightarrow>
               (case j decoded_str of None \<Rightarrow> Inl JSONDecodeError | Some v \<Rightarrow> Inr v))"
    by (rule t1[THEN conjunct2, THEN conjunct2, THEN conjunct1, THEN mp, OF a])
  then have 1: "decode_access_token j (lit ''h.e30.s'') = Inr (PDict [])"
    unfolding d by (simp add: j_def)
  have "decode_access_token n (lit ''h'' @ 46 # lit ''e30'' @ []) =
          (case decode_part (lit ''e30'') of
             Inl e \<Rightarrow> Inl e
           | Inr decoded_str \<Rightarrow>
               (case n decoded_str of None \<Rightarrow> Inl JSONDecodeError | Some v \<Rightarrow> Inr v))"
    by (rule t2[THEN conjunct2, THEN conjunct2, THEN conjunct1, THEN mp, OF b])
  then have 2: "decode_access_token n (lit ''h.e30'') = Inl JSONDecodeError"
    unfolding d by (simp add: n_def)
  have 3: "decode_access_token n (lit ''he30'') = Inl IndexError"
    by (rule t3[THEN conjunct2, THEN conjunct1, THEN mp, OF c])
  from 1 2 3 show ?thesis unfolding j_def n_def by simp
qed

end
